theory Spec2Isabelle
  imports Complex_Main
begin

section \<open>Python primitives used by \<open>src/main.py\<close>\<close>

text \<open>
  Python integers are unbounded and are modelled by \<open>int\<close>; Python's \<open>//\<close> and \<open>%\<close> with a
  positive divisor are HOL's \<open>div\<close> and \<open>mod\<close> on \<open>int\<close> (both round towards minus infinity).
  Strings are \<open>string\<close>; a \<open>dict\<close> is a map; \<open>None\<close> is \<open>None\<close>.  The exceptions the modelled
  functions can raise are values of \<open>py_error\<close>.
\<close>

datatype py_error = IndexError | ValueError

definition digit_char :: "nat \<Rightarrow> char" where
  "digit_char d = ''0123456789'' ! d"

text \<open>\<open>str(n)\<close> for a non-negative integer: its decimal digits, most significant first.\<close>

fun str_nat :: "nat \<Rightarrow> string" where
  "str_nat n = (if n < 10 then [digit_char n] else str_nat (n div 10) @ [digit_char (n mod 10)])"

declare str_nat.simps [simp del]

text \<open>\<open>str(i)\<close> and \<open>f"{i}"\<close> for an integer.\<close>

definition str_int :: "int \<Rightarrow> string" where
  "str_int i = (if i < 0 then CHR ''-'' # str_nat (nat (- i)) else str_nat (nat i))"

text \<open>
  \<open>f"{i:02d}"\<close>: the decimal text, zero-padded to width two.  The sign counts towards the
  width, so only the one-digit non-negative numbers are padded.
\<close>

definition fmt_02d :: "int \<Rightarrow> string" where
  "fmt_02d i = (let s = str_int i in if length s < 2 then CHR ''0'' # s else s)"

text \<open>
  \<open>s.replace(old, new)\<close>: the non-overlapping occurrences of \<open>old\<close> are replaced from left to
  right; with an empty \<open>old\<close>, \<open>new\<close> is put before every character and at the end.
\<close>

fun str_replace :: "string \<Rightarrow> string \<Rightarrow> string \<Rightarrow> string" where
  "str_replace old new [] = (if old = [] then new else [])"
| "str_replace old new (c # cs) =
     (if old = [] then new @ c # str_replace old new cs
      else if take (length old) (c # cs) = old
        then new @ str_replace old new (drop (length old - 1) cs)
        else c # str_replace old new cs)"

text \<open>\<open>xs[i] = v\<close> on a list: a negative index counts from the end, an index out of range raises.\<close>

definition py_setitem :: "'a list \<Rightarrow> int \<Rightarrow> 'a \<Rightarrow> py_error + 'a list" where
  "py_setitem xs i v =
     (if 0 \<le> i \<and> i < int (length xs) then Inr (xs[nat i := v])
      else if i < 0 \<and> - int (length xs) \<le> i then Inr (xs[nat (int (length xs) + i) := v])
      else Inl IndexError)"

text \<open>\<open>d.get(k, default)\<close>.\<close>

definition dict_get :: "('k \<rightharpoonup> 'v) \<Rightarrow> 'k \<Rightarrow> 'v \<Rightarrow> 'v" where
  "dict_get d k dflt = (case d k of None \<Rightarrow> dflt | Some v \<Rightarrow> v)"

section \<open>Presenter helpers: \<open>format_hours\<close>, \<open>format_time\<close>, \<open>format_slot_time\<close>\<close>

text \<open>
  The three Ukrainian word forms of the source, as the UTF-8 bytes of the literals:
  \<open>hodyna\<close> is the singular form (line 113), \<open>hodyny\<close> the form of lines 110 and 115,
  \<open>hodyn\<close> the form of line 117.
\<close>

definition hodyna :: string where
  "hodyna = [CHR 0xD0, CHR 0xB3, CHR 0xD0, CHR 0xBE, CHR 0xD0, CHR 0xB4,
             CHR 0xD0, CHR 0xB8, CHR 0xD0, CHR 0xBD, CHR 0xD0, CHR 0xB0]"

definition hodyny :: string where
  "hodyny = [CHR 0xD0, CHR 0xB3, CHR 0xD0, CHR 0xBE, CHR 0xD0, CHR 0xB4,
             CHR 0xD0, CHR 0xB8, CHR 0xD0, CHR 0xBD, CHR 0xD0, CHR 0xB8]"

definition hodyn :: string where
  "hodyn = [CHR 0xD0, CHR 0xB3, CHR 0xD0, CHR 0xBE, CHR 0xD0, CHR 0xB4,
            CHR 0xD0, CHR 0xB8, CHR 0xD0, CHR 0xBD]"

text \<open>\<open>int(h)\<close> on a float truncates towards zero.\<close>

definition py_int :: "rat \<Rightarrow> int" where
  "py_int h = (if 0 \<le> h then \<lfloor>h\<rfloor> else \<lceil>h\<rceil>)"

text \<open>
  \<open>format_hours\<close> (lines 104--117).  The argument is a finite Python number, modelled by the
  rational it denotes (the hour counts of the program are sums of multiples of \<open>0.5\<close>, which
  binary floating point represents exactly).  When the value equals its truncation it is
  turned into an integer; otherwise it stays a float and line 110 returns.  How Python prints
  a float inside an f-string is not code of this repository: it is the parameter
  \<open>float_str\<close>.
\<close>

definition format_hours :: "(rat \<Rightarrow> string) \<Rightarrow> rat \<Rightarrow> string" where
  "format_hours float_str h =
     (if h \<noteq> of_int (py_int h) then float_str h @ '' '' @ hodyny
      else let n = py_int h in
        if n mod 10 = 1 \<and> n mod 100 \<noteq> 11 then str_int n @ '' '' @ hodyna
        else if n mod 10 \<in> set [2, 3, 4] \<and> n mod 100 \<notin> set [12, 13, 14]
          then str_int n @ '' '' @ hodyny
        else str_int n @ '' '' @ hodyn)"

text \<open>
  The float text of the non-negative half-integer hour counts the program produces:
  \<open>0.5\<close>, \<open>1.5\<close>, ...; it stands in for \<open>float_str\<close> in concrete evaluations.
\<close>

definition half_str :: "rat \<Rightarrow> string" where
  "half_str h = str_int (py_int h) @ ''.5''"

text \<open>\<open>format_time\<close> (lines 120--126) and \<open>format_slot_time\<close> (lines 129--131).\<close>

definition format_time :: "int \<Rightarrow> string" where
  "format_time minutes =
     (let hrs = minutes div 60; mins = minutes mod 60
      in if hrs = 24 then ''24:00'' else fmt_02d hrs @ '':'' @ fmt_02d mins)"

definition format_slot_time :: "int \<Rightarrow> string" where
  "format_slot_time slot = format_time (slot * 30)"

section \<open>Period Compressor: \<open>slots_to_periods\<close>\<close>

text \<open>
  A period is the dictionary built at lines 321--326 and 331--336; the key \<open>"start"\<close> is the
  field \<open>p_start\<close> and \<open>"end"\<close> is \<open>p_end\<close>.
\<close>

record period =
  p_start :: string
  p_end :: string
  is_on :: bool
  hours :: rat

definition mk_period :: "int \<Rightarrow> int \<Rightarrow> bool \<Rightarrow> period" where
  "mk_period start_slot i current_status =
     \<lparr>p_start = format_slot_time start_slot, p_end = format_slot_time i,
      is_on = current_status, hours = of_int (i - start_slot) * (1 / 2)\<rparr>"

text \<open>
  The loop of lines 318--328 over \<open>slots[i:]\<close>, with the loop index \<open>i\<close> and the three
  variables it updates: \<open>current_status\<close>, \<open>start_slot\<close> and the list \<open>periods\<close>.
\<close>

fun periods_loop :: "bool list \<Rightarrow> int \<Rightarrow> bool \<Rightarrow> int \<Rightarrow> period list \<Rightarrow> bool \<times> int \<times> period list" where
  "periods_loop [] i current_status start_slot periods = (current_status, start_slot, periods)"
| "periods_loop (x # xs) i current_status start_slot periods =
     (if x \<noteq> current_status
      then periods_loop xs (i + 1) x i (periods @ [mk_period start_slot i current_status])
      else periods_loop xs (i + 1) current_status start_slot periods)"

definition slots_to_periods :: "bool list \<Rightarrow> period list" where
  "slots_to_periods slots =
     (case slots of
        [] \<Rightarrow> []
      | s0 # rest \<Rightarrow>
          (case periods_loop rest 1 s0 0 [] of
             (current_status, start_slot, periods) \<Rightarrow>
               periods @ [mk_period start_slot (int (length slots)) current_status]))"

text \<open>
  The re-expansion of the round-trip law is not code of the repository; it follows the
  specification's words.  \<open>slot_of_time\<close> recovers a slot boundary from a rendered \<open>HH:MM\<close>
  text, and \<open>expand_periods\<close> lets every period contribute one copy of its \<open>is_on\<close> value per
  slot between its two boundaries.
\<close>

definition digit_val :: "char \<Rightarrow> int" where
  "digit_val c = int (of_char c) - 48"

definition num_of :: "string \<Rightarrow> int" where
  "num_of s = foldl (\<lambda>a c. 10 * a + digit_val c) 0 s"

definition slot_of_time :: "string \<Rightarrow> int" where
  "slot_of_time s =
     (num_of (takeWhile (\<lambda>c. c \<noteq> CHR '':'') s) * 60
        + num_of (drop 1 (dropWhile (\<lambda>c. c \<noteq> CHR '':'') s))) div 30"

definition expand_periods :: "period list \<Rightarrow> bool list" where
  "expand_periods ps =
     concat (map (\<lambda>p. replicate (nat (slot_of_time (p_end p) - slot_of_time (p_start p))) (is_on p)) ps)"

text \<open>
  The Period invariant of the specification, as a check on a period sequence:
  \<open>partition_from a ps\<close> holds when the periods are rendered from consecutive slot ranges
  that start at slot \<open>a\<close>, are non-empty, follow each other without gap or overlap and end at
  slot 48, each with \<open>hours = (endSlot - startSlot) * 0.5\<close>; \<open>alternating ps\<close> holds when
  neighbours differ in \<open>is_on\<close>.
\<close>

fun partition_from :: "int \<Rightarrow> period list \<Rightarrow> bool" where
  "partition_from a [] = (a = 48)"
| "partition_from a (p # ps) =
     (let b = slot_of_time (p_end p)
      in p_start p = format_slot_time a \<and> p_end p = format_slot_time b \<and> a < b \<and> b \<le> 48
         \<and> hours p = of_int (b - a) * (1 / 2) \<and> partition_from b ps)"

fun alternating :: "period list \<Rightarrow> bool" where
  "alternating (p # q # ps) = (is_on p \<noteq> is_on q \<and> alternating (q # ps))"
| "alternating ps = True"

text \<open>
  A proof device: the periods that the loop will still append, written without the
  accumulator.  \<open>periods_loop_runs\<close> below relates it to \<open>periods_loop\<close>.
\<close>

fun runs_from :: "bool list \<Rightarrow> int \<Rightarrow> bool \<Rightarrow> int \<Rightarrow> period list" where
  "runs_from [] i cur st = [mk_period st i cur]"
| "runs_from (x # xs) i cur st =
     (if x \<noteq> cur then mk_period st i cur # runs_from xs (i + 1) x i
      else runs_from xs (i + 1) cur st)"

section \<open>Slot model\<close>

text \<open>
  A normalized day record is the dictionary \<open>{"slots": ..., "date": ..., "status": ...}\<close>
  built at lines 231--242 and 298--302.  The date object is of a type \<open>'d\<close> left open.
\<close>

record 'd day_entry =
  d_slots :: "bool list option"
  d_date :: 'd
  d_status :: string

text \<open>Python truthiness of an optional list: \<open>None\<close> and the empty list are false.\<close>

definition falsy :: "'a list option \<Rightarrow> bool" where
  "falsy x = (case x of None \<Rightarrow> True | Some xs \<Rightarrow> xs = [])"

section \<open>GitHub-style normalizer\<close>

text \<open>
  A raw day payload is a dictionary from the hour number as text to a status code.
  \<open>is_all_yes\<close> is lines 178--183; its loop returns at the first hour that is not \<open>"yes"\<close>.
\<close>

fun all_yes_loop :: "(string \<rightharpoonup> string) \<Rightarrow> int list \<Rightarrow> bool" where
  "all_yes_loop day_data [] = True"
| "all_yes_loop day_data (hour # hs) =
     (if dict_get day_data (str_int hour) ''yes'' \<noteq> ''yes'' then False
      else all_yes_loop day_data hs)"

definition is_all_yes :: "(string \<rightharpoonup> string) \<Rightarrow> bool" where
  "is_all_yes day_data = all_yes_loop day_data [1..24]"

text \<open>The two half-hour slots of one hour (lines 193--202).\<close>

definition hour_slots :: "string \<Rightarrow> bool list" where
  "hour_slots st =
     (if st = ''yes'' then [True, True]
      else if st = ''no'' then [False, False]
      else if st = ''first'' then [False, True]
      else if st = ''second'' then [True, False]
      else [True, True])"

text \<open>\<open>parse_github_day\<close> (lines 186--206): the loop extends \<open>slots\<close> hour by hour.\<close>

fun github_loop :: "(string \<rightharpoonup> string) \<Rightarrow> int list \<Rightarrow> bool list \<Rightarrow> bool list" where
  "github_loop day_data [] slots = slots"
| "github_loop day_data (hour # hs) slots =
     github_loop day_data hs (slots @ hour_slots (dict_get day_data (str_int hour) ''yes''))"

definition parse_github_day :: "(string \<rightharpoonup> string) \<Rightarrow> bool list" where
  "parse_github_day day_data = github_loop day_data [1..24] []"

text \<open>
  The body of the day loop of \<open>extract_github_schedules\<close> (lines 223--242) for one group and
  one day: \<open>day_data\<close> is what line 223 looked up (\<open>None\<close> when the payload has no entry for the
  group), \<open>date\<close> is the date object of line 227.  The result \<open>None\<close> is the \<open>continue\<close> of
  line 225: no record is stored.
\<close>

definition extract_github_day :: "'d \<Rightarrow> (string \<rightharpoonup> string) option \<Rightarrow> 'd day_entry option" where
  "extract_github_day date day_data =
     (case day_data of
        None \<Rightarrow> None
      | Some dd \<Rightarrow>
          if dd = Map.empty then None
          else if is_all_yes dd
            then Some \<lparr>d_slots = None, d_date = date, d_status = ''pending''\<rparr>
            else Some \<lparr>d_slots = Some (parse_github_day dd), d_date = date, d_status = ''normal''\<rparr>)"

section \<open>Yasno-style normalizer\<close>

text \<open>
  An interval object has the optional keys \<open>"start"\<close>, \<open>"end"\<close> (minutes) and \<open>"type"\<close>; a day
  entry has the optional keys \<open>"status"\<close>, \<open>"slots"\<close> and \<open>"date"\<close>.
\<close>

record interval =
  i_start :: "int option"
  i_end :: "int option"
  i_type :: "string option"

record yasno_day =
  y_status :: "string option"
  y_slots :: "interval list option"
  y_date :: "string option"

text \<open>The inner loop of lines 266--267, \<open>for i in range(...): slots[i] = is_on\<close>.\<close>

fun set_range :: "bool list \<Rightarrow> int list \<Rightarrow> bool \<Rightarrow> py_error + bool list" where
  "set_range slots [] v = Inr slots"
| "set_range slots (i # rest) v =
     (case py_setitem slots i v of
        Inl e \<Rightarrow> Inl e
      | Inr slots' \<Rightarrow> set_range slots' rest v)"

text \<open>One pass of the loop body, lines 262--267; \<open>range(a, b)\<close> is the list \<open>[a..b - 1]\<close>.\<close>

definition apply_interval :: "bool list \<Rightarrow> interval \<Rightarrow> py_error + bool list" where
  "apply_interval slots slot =
     (let start_idx = (case i_start slot of None \<Rightarrow> 0 | Some m \<Rightarrow> m) div 30;
          end_idx = (case i_end slot of None \<Rightarrow> 0 | Some m \<Rightarrow> m) div 30;
          on = (i_type slot = Some ''NotPlanned'')
      in set_range slots [start_idx..min end_idx 48 - 1] on)"

fun apply_intervals :: "bool list \<Rightarrow> interval list \<Rightarrow> py_error + bool list" where
  "apply_intervals slots [] = Inr slots"
| "apply_intervals slots (slot # rest) =
     (case apply_interval slots slot of
        Inl e \<Rightarrow> Inl e
      | Inr slots' \<Rightarrow> apply_intervals slots' rest)"

text \<open>\<open>parse_yasno_day\<close> (lines 249--269), returning the pair \<open>(slots, status)\<close>.\<close>

definition parse_yasno_day :: "yasno_day \<Rightarrow> py_error + (bool list option \<times> string)" where
  "parse_yasno_day day_data =
     (let st = (case y_status day_data of None \<Rightarrow> [] | Some s \<Rightarrow> s)
      in if st = ''EmergencyShutdowns'' then Inr (None, ''emergency'')
         else if falsy (y_slots day_data) then Inr (None, ''pending'')
         else (case y_slots day_data of
                 None \<Rightarrow> Inr (None, ''pending'')
               | Some ivs \<Rightarrow>
                   (case apply_intervals (replicate 48 True) ivs of
                      Inl e \<Rightarrow> Inl e
                    | Inr slots \<Rightarrow> Inr (Some slots, ''normal''))))"

text \<open>
  \<open>extract_yasno_schedules\<close> (lines 272--304).  \<open>datetime.fromisoformat\<close> and \<open>strftime\<close> are
  library code: they are the parameters \<open>fromiso\<close> (\<open>None\<close> when the text is rejected with a
  \<open>ValueError\<close>) and \<open>ymd\<close>.  \<open>yasno_day_step\<close> is the body of the loop over the day keys
  (lines 289--302), \<open>yasno_group_step\<close> the body of the loop over the groups (lines 280--302).
\<close>

definition yasno_group_key :: "string \<Rightarrow> string" where
  "yasno_group_key grp = str_replace ''GPV'' [] grp"

definition yasno_day_step ::
  "(string \<Rightarrow> 'd option) \<Rightarrow> ('d \<Rightarrow> string) \<Rightarrow> (string \<rightharpoonup> yasno_day) \<Rightarrow> string
     \<Rightarrow> (string \<rightharpoonup> 'd day_entry) \<Rightarrow> py_error + (string \<rightharpoonup> 'd day_entry)" where
  "yasno_day_step fromiso ymd group_data day_key dates =
     (case group_data day_key of
        None \<Rightarrow> Inr dates
      | Some day_data \<Rightarrow>
          (case y_date day_data of
             None \<Rightarrow> Inr dates
           | Some date_str_full \<Rightarrow>
               (case fromiso date_str_full of
                  None \<Rightarrow> Inl ValueError
                | Some date \<Rightarrow>
                    (case parse_yasno_day day_data of
                       Inl e \<Rightarrow> Inl e
                     | Inr (slots, st) \<Rightarrow>
                         Inr (dates(ymd date \<mapsto>
                                \<lparr>d_slots = slots, d_date = date, d_status = st\<rparr>))))))"

fun yasno_days_loop ::
  "(string \<Rightarrow> 'd option) \<Rightarrow> ('d \<Rightarrow> string) \<Rightarrow> (string \<rightharpoonup> yasno_day) \<Rightarrow> string list
     \<Rightarrow> (string \<rightharpoonup> 'd day_entry) \<Rightarrow> py_error + (string \<rightharpoonup> 'd day_entry)" where
  "yasno_days_loop fromiso ymd group_data [] dates = Inr dates"
| "yasno_days_loop fromiso ymd group_data (day_key # ks) dates =
     (case yasno_day_step fromiso ymd group_data day_key dates of
        Inl e \<Rightarrow> Inl e
      | Inr dates' \<Rightarrow> yasno_days_loop fromiso ymd group_data ks dates')"

definition yasno_group_step ::
  "(string \<Rightarrow> 'd option) \<Rightarrow> ('d \<Rightarrow> string) \<Rightarrow> (string \<rightharpoonup> (string \<rightharpoonup> yasno_day)) \<Rightarrow> string
     \<Rightarrow> (string \<rightharpoonup> (string \<rightharpoonup> 'd day_entry))
     \<Rightarrow> py_error + (string \<rightharpoonup> (string \<rightharpoonup> 'd day_entry))" where
  "yasno_group_step fromiso ymd data grp result =
     (let group_key = yasno_group_key grp
      in case data group_key of
           None \<Rightarrow> Inr result
         | Some group_data \<Rightarrow>
             (case yasno_days_loop fromiso ymd group_data [''today'', ''tomorrow''] Map.empty of
                Inl e \<Rightarrow> Inl e
              | Inr dates \<Rightarrow> Inr (result(grp \<mapsto> dates))))"

fun yasno_groups_loop ::
  "(string \<Rightarrow> 'd option) \<Rightarrow> ('d \<Rightarrow> string) \<Rightarrow> (string \<rightharpoonup> (string \<rightharpoonup> yasno_day)) \<Rightarrow> string list
     \<Rightarrow> (string \<rightharpoonup> (string \<rightharpoonup> 'd day_entry))
     \<Rightarrow> py_error + (string \<rightharpoonup> (string \<rightharpoonup> 'd day_entry))" where
  "yasno_groups_loop fromiso ymd data [] result = Inr result"
| "yasno_groups_loop fromiso ymd data (grp # gs) result =
     (case yasno_group_step fromiso ymd data grp result of
        Inl e \<Rightarrow> Inl e
      | Inr result' \<Rightarrow> yasno_groups_loop fromiso ymd data gs result')"

definition extract_yasno_schedules ::
  "(string \<Rightarrow> 'd option) \<Rightarrow> ('d \<Rightarrow> string) \<Rightarrow> (string \<rightharpoonup> (string \<rightharpoonup> yasno_day)) \<Rightarrow> string list
     \<Rightarrow> py_error + (string \<rightharpoonup> (string \<rightharpoonup> 'd day_entry))" where
  "extract_yasno_schedules fromiso ymd data groups =
     (if data = Map.empty then Inr Map.empty
      else yasno_groups_loop fromiso ymd data groups Map.empty)"

text \<open>
  The specification's reading of the group key, for comparison: the identifier without its
  alphabetic prefix.
\<close>

definition is_alphabetic :: "char \<Rightarrow> bool" where
  "is_alphabetic c =
     (let k = (of_char c :: nat) in (65 \<le> k \<and> k \<le> 90) \<or> (97 \<le> k \<and> k \<le> 122))"

definition bare_suffix :: "string \<Rightarrow> string" where
  "bare_suffix grp = dropWhile is_alphabetic grp"

section \<open>Reconciler\<close>

text \<open>\<open>schedules_match\<close> (lines 341--345); either argument may be \<open>None\<close>.\<close>

definition schedules_match :: "bool list option \<Rightarrow> bool list option \<Rightarrow> bool" where
  "schedules_match slots1 slots2 =
     (if falsy slots1 \<or> falsy slots2 then False else slots1 = slots2)"

text \<open>
  A display unit stands for the text block that \<open>format_schedule_message\<close> (lines 517--529)
  renders: it records the four arguments of the call.  The rendering itself (templates, icons,
  date formatting of lines 395--512) is left out.  The rendered text is never empty, since
  both renderers join a list that starts with the header and an empty line; so the tests
  \<open>if msg:\<close> of lines 619 and 624 succeed exactly when the message is not \<open>None\<close>.
\<close>

record 'd display_unit =
  u_periods :: "period list"
  u_date :: 'd
  u_sources :: "string list"
  u_special :: "string option"

definition format_schedule_message ::
  "period list \<Rightarrow> 'd \<Rightarrow> string list \<Rightarrow> string option \<Rightarrow> 'd display_unit" where
  "format_schedule_message periods date sources special_status =
     \<lparr>u_periods = periods, u_date = date, u_sources = sources, u_special = special_status\<rparr>"

text \<open>
  \<open>format_single_source_message\<close> (lines 532--548).  The argument \<open>data\<close> is \<open>None\<close> when the
  caller has no record; a record is a non-empty dictionary and so is true.
\<close>

definition format_single_source_message ::
  "'d day_entry option \<Rightarrow> 'd \<Rightarrow> string \<Rightarrow> 'd display_unit option" where
  "format_single_source_message data date source =
     (case data of
        None \<Rightarrow> None
      | Some e \<Rightarrow>
          if d_status e = ''normal'' \<and> \<not> falsy (d_slots e)
            then (case d_slots e of
                    None \<Rightarrow> None
                  | Some slots \<Rightarrow>
                      Some (format_schedule_message (slots_to_periods slots) date [source] None))
          else if d_status e = ''pending''
            then Some (format_schedule_message [] date [source] (Some ''pending''))
          else if d_status e = ''emergency''
            then Some (format_schedule_message [] date [source] (Some ''emergency''))
          else None)"

text \<open>
  The body of the date loop of \<open>format_group_message\<close> (lines 582--625) for one group and one
  date: \<open>github_data\<close> and \<open>yasno_data\<close> are the two lookups of lines 582--583, the result is
  the list \<open>source_messages\<close>.  With no record on either side there is no date and the loop
  continues (lines 592--593) with nothing emitted.
\<close>

definition group_day_messages ::
  "string \<Rightarrow> string \<Rightarrow> 'd day_entry option \<Rightarrow> 'd day_entry option \<Rightarrow> 'd display_unit list" where
  "group_day_messages github_name yasno_name github_data yasno_data =
     (case (case github_data of
              Some g \<Rightarrow> Some (d_date g)
            | None \<Rightarrow> (case yasno_data of Some y \<Rightarrow> Some (d_date y) | None \<Rightarrow> None)) of
        None \<Rightarrow> []
      | Some date \<Rightarrow>
          (let github_slots = (case github_data of Some g \<Rightarrow> d_slots g | None \<Rightarrow> None);
               yasno_slots = (case yasno_data of Some y \<Rightarrow> d_slots y | None \<Rightarrow> None);
               github_status = (case github_data of Some g \<Rightarrow> Some (d_status g) | None \<Rightarrow> None);
               yasno_status = (case yasno_data of Some y \<Rightarrow> Some (d_status y) | None \<Rightarrow> None);
               both_normal = (github_status = Some ''normal'' \<and> yasno_status = Some ''normal''
                              \<and> \<not> falsy github_slots \<and> \<not> falsy yasno_slots)
           in if both_normal \<and> schedules_match github_slots yasno_slots
              then (case github_slots of
                      None \<Rightarrow> []
                    | Some slots \<Rightarrow>
                        [format_schedule_message (slots_to_periods slots) date
                           [github_name, yasno_name] None])
              else (case github_data of
                      None \<Rightarrow> []
                    | Some g \<Rightarrow>
                        (case format_single_source_message github_data date github_name of
                           None \<Rightarrow> []
                         | Some msg \<Rightarrow> [msg]))
                   @ (case yasno_data of
                        None \<Rightarrow> []
                      | Some y \<Rightarrow>
                          (case format_single_source_message yasno_data date yasno_name of
                             None \<Rightarrow> []
                           | Some msg \<Rightarrow> [msg]))))"

text \<open>
  The DaySchedule invariant of the specification: the status is one of the three, and a
  record is \<open>normal\<close> exactly when its slots are present and non-empty.
\<close>

definition day_schedule_ok :: "'d day_entry \<Rightarrow> bool" where
  "day_schedule_ok e =
     (d_status e \<in> set [''normal'', ''pending'', ''emergency'']
      \<and> (d_status e = ''normal'') = (\<not> falsy (d_slots e)))"

section \<open>Change Detector\<close>

text \<open>
  The cache format is provider \<open>\<rightarrow>\<close> group \<open>\<rightarrow>\<close> date text \<open>\<rightarrow>\<close> \<open>{"slots", "status"}\<close>.
  \<open>schedules_to_cache_format\<close> is lines 350--370.  \<open>load_cached_schedules\<close> (lines 373--379)
  takes what the cache file holds: \<open>None\<close> when the file is missing or is not JSON.
\<close>

record cache_entry =
  c_slots :: "bool list option"
  c_status :: string

type_synonym 'd schedules = "string \<rightharpoonup> (string \<rightharpoonup> 'd day_entry)"

type_synonym cache = "string \<rightharpoonup> (string \<rightharpoonup> (string \<rightharpoonup> cache_entry))"

definition reduce_dates :: "(string \<rightharpoonup> 'd day_entry) \<Rightarrow> (string \<rightharpoonup> cache_entry)" where
  "reduce_dates dates =
     (\<lambda>date_str. case dates date_str of
                   None \<Rightarrow> None
                 | Some e \<Rightarrow> Some \<lparr>c_slots = d_slots e, c_status = d_status e\<rparr>)"

definition reduce_groups :: "'d schedules \<Rightarrow> (string \<rightharpoonup> (string \<rightharpoonup> cache_entry))" where
  "reduce_groups scheds =
     (\<lambda>grp. case scheds grp of None \<Rightarrow> None | Some dates \<Rightarrow> Some (reduce_dates dates))"

definition schedules_to_cache_format :: "'d schedules \<Rightarrow> 'd schedules \<Rightarrow> cache" where
  "schedules_to_cache_format github_schedules yasno_schedules =
     [''github'' \<mapsto> reduce_groups github_schedules, ''yasno'' \<mapsto> reduce_groups yasno_schedules]"

definition load_cached_schedules :: "cache option \<Rightarrow> cache" where
  "load_cached_schedules file =
     (case file of
        Some c \<Rightarrow> c
      | None \<Rightarrow> [''github'' \<mapsto> Map.empty, ''yasno'' \<mapsto> Map.empty])"

definition schedules_changed :: "cache \<Rightarrow> cache \<Rightarrow> bool" where
  "schedules_changed new_cache old_cache = (new_cache \<noteq> old_cache)"

text \<open>
  Deep structural equality over the reduced shape, spelled out level by level as the
  specification describes it: the same providers, under each the same groups, under each the
  same dates, and for each date the same status and the same slots, element by element.
\<close>

definition slots_equal :: "bool list option \<Rightarrow> bool list option \<Rightarrow> bool" where
  "slots_equal a b =
     (case (a, b) of
        (None, None) \<Rightarrow> True
      | (Some xs, Some ys) \<Rightarrow> length xs = length ys \<and> (\<forall>i < length xs. xs ! i = ys ! i)
      | _ \<Rightarrow> False)"

definition entry_equal :: "cache_entry \<Rightarrow> cache_entry \<Rightarrow> bool" where
  "entry_equal a b = (c_status a = c_status b \<and> slots_equal (c_slots a) (c_slots b))"

definition deep_equal :: "cache \<Rightarrow> cache \<Rightarrow> bool" where
  "deep_equal a b =
     (\<forall>provider. rel_option
        (\<lambda>ga gb. \<forall>grp. rel_option
           (\<lambda>da db. \<forall>date_str. rel_option entry_equal (da date_str) (db date_str))
           (ga grp) (gb grp))
        (a provider) (b provider))"

section \<open>Example inputs\<close>

text \<open>A day with power from 00:00 to 08:00, an outage until 12:00, and power afterwards.\<close>

definition day_example :: "bool list" where
  "day_example = replicate 16 True @ replicate 8 False @ replicate 24 True"

text \<open>GitHub day payloads: no key at all; hour 1 off; hour 24 explicitly on.\<close>

definition empty_payload :: "string \<rightharpoonup> string" where
  "empty_payload = Map.empty"

definition hour1_no :: "string \<rightharpoonup> string" where
  "hour1_no = [''1'' \<mapsto> ''no'']"

definition hour24_yes :: "string \<rightharpoonup> string" where
  "hour24_yes = [''24'' \<mapsto> ''yes'']"

text \<open>
  Yasno day entries with one interval each: one whose start minute lies more than a day
  before midnight, one that starts half an hour before midnight, one that ends after the
  day.
\<close>

definition neg_start_day :: yasno_day where
  "neg_start_day =
     \<lparr>y_status = Some ''ScheduleApplies'',
      y_slots = Some [\<lparr>i_start = Some (- 1470), i_end = Some 0, i_type = Some ''Definite''\<rparr>],
      y_date = Some ''2025-01-15T00:00:00+02:00''\<rparr>"

definition wrap_day :: yasno_day where
  "wrap_day =
     \<lparr>y_status = Some ''ScheduleApplies'',
      y_slots = Some [\<lparr>i_start = Some (- 30), i_end = Some 0, i_type = Some ''Definite''\<rparr>],
      y_date = Some ''2025-01-15T00:00:00+02:00''\<rparr>"

definition late_day :: yasno_day where
  "late_day =
     \<lparr>y_status = Some ''ScheduleApplies'',
      y_slots = Some [\<lparr>i_start = Some 1380, i_end = Some 3000, i_type = Some ''Definite''\<rparr>],
      y_date = Some ''2025-01-15T00:00:00+02:00''\<rparr>"

text \<open>
  Stand-ins for the two date functions, a day entry without intervals, a group entry that
  holds it under \<open>"today"\<close>, a payload keyed by the bare suffix \<open>"1"\<close>, and the empty result.
\<close>

definition iso_example :: "string \<Rightarrow> string option" where
  "iso_example s = Some s"

definition ymd_example :: "string \<Rightarrow> string" where
  "ymd_example d = take 10 d"

definition pending_day :: yasno_day where
  "pending_day = \<lparr>y_status = Some ''WaitingForSchedule'', y_slots = None,
                  y_date = Some ''2025-01-15T00:00:00+02:00''\<rparr>"

definition pending_group :: "string \<rightharpoonup> yasno_day" where
  "pending_group = [''today'' \<mapsto> pending_day]"

definition suffix_payload :: "string \<rightharpoonup> (string \<rightharpoonup> yasno_day)" where
  "suffix_payload = [''1'' \<mapsto> pending_group]"

text \<open>
  A payload keyed by \<open>"12.1"\<close>, and the schedules that group \<open>GPV12.1\<close> gets from it.
\<close>

definition gpv_payload :: "string \<rightharpoonup> (string \<rightharpoonup> yasno_day)" where
  "gpv_payload = [''12.1'' \<mapsto> pending_group]"

definition pending_dates :: "string \<rightharpoonup> string day_entry" where
  "pending_dates =
     [''2025-01-15'' \<mapsto>
        \<lparr>d_slots = None, d_date = ''2025-01-15T00:00:00+02:00'', d_status = ''pending''\<rparr>]"

definition pending_schedules :: "string \<rightharpoonup> (string \<rightharpoonup> string day_entry)" where
  "pending_schedules = [''GPV12.1'' \<mapsto> pending_dates]"

definition no_schedules :: "string \<rightharpoonup> (string \<rightharpoonup> string day_entry)" where
  "no_schedules = Map.empty"

section \<open>The reconciler's decision, in the specification's words\<close>

text \<open>
  \<open>identical_normal\<close>: both providers have a record, both with status \<open>normal\<close>, both with
  a non-empty slot array, and the arrays agree element by element.  \<open>entry_ok\<close>: a record,
  when there is one, satisfies the DaySchedule invariant.
\<close>

definition identical_normal :: "'d day_entry option \<Rightarrow> 'd day_entry option \<Rightarrow> bool" where
  "identical_normal g y =
     (case (g, y) of
        (Some ge, Some ye) \<Rightarrow>
          d_status ge = ''normal'' \<and> d_status ye = ''normal''
          \<and> (case (d_slots ge, d_slots ye) of
                (Some s, Some t) \<Rightarrow> s \<noteq> [] \<and> t \<noteq> [] \<and> list_all2 (=) s t
              | _ \<Rightarrow> False)
      | _ \<Rightarrow> False)"

definition entry_ok :: "'d day_entry option \<Rightarrow> bool" where
  "entry_ok x = (case x of None \<Rightarrow> True | Some e \<Rightarrow> day_schedule_ok e)"

section \<open>Example records and caches\<close>

text \<open>Day records of the two providers for one date.\<close>

definition github_normal :: "nat day_entry" where
  "github_normal = \<lparr>d_slots = Some day_example, d_date = 20250115, d_status = ''normal''\<rparr>"

definition yasno_normal :: "nat day_entry" where
  "yasno_normal = \<lparr>d_slots = Some day_example, d_date = 20250115, d_status = ''normal''\<rparr>"

definition yasno_emergency :: "nat day_entry" where
  "yasno_emergency = \<lparr>d_slots = None, d_date = 20250115, d_status = ''emergency''\<rparr>"

text \<open>A cache with one GitHub group and one date, and the schedules it comes from.\<close>

definition entry_example :: cache_entry where
  "entry_example = \<lparr>c_slots = Some day_example, c_status = ''normal''\<rparr>"

definition dates_example :: "string \<rightharpoonup> cache_entry" where
  "dates_example = [''2025-01-15'' \<mapsto> entry_example]"

definition groups_example :: "string \<rightharpoonup> (string \<rightharpoonup> cache_entry)" where
  "groups_example = [''GPV12.1'' \<mapsto> dates_example]"

definition cache_example :: cache where
  "cache_example = [''github'' \<mapsto> groups_example, ''yasno'' \<mapsto> Map.empty]"

definition github_example :: "string schedules" where
  "github_example =
     [''GPV12.1'' \<mapsto> [''2025-01-15'' \<mapsto>
        \<lparr>d_slots = Some day_example, d_date = ''2025-01-15 00:00'', d_status = ''normal''\<rparr>]]"

definition yasno_example :: "string schedules" where
  "yasno_example = Map.empty"

section \<open>The Period Compressor: loop invariant\<close>

text \<open>
  Every slot boundary \<open>0..48\<close> is recovered from its rendered time; beyond 48 this fails,
  since \<open>format_time\<close> renders every minute count of hour 24 as \<open>24:00\<close>.
\<close>

lemma slot_of_format_all: "\<forall>i \<in> set [0..48]. slot_of_time (format_slot_time i) = i"
  by code_simp

lemma slot_of_format: "0 \<le> i \<Longrightarrow> i \<le> 48 \<Longrightarrow> slot_of_time (format_slot_time i) = i"
  using slot_of_format_all by simp

lemma periods_loop_runs:
  "(case periods_loop xs i cur st ps of
      (c, s, ps') \<Rightarrow> ps' @ [mk_period s (i + int (length xs)) c]) = ps @ runs_from xs i cur st"
proof (induction xs arbitrary: i cur st ps)
  case Nil
  show ?case by simp
next
  case (Cons x xs)
  show ?case
  proof (cases "x = cur")
    case True
    with Cons.IH [of "i + 1" cur st ps] show ?thesis by (simp add: ac_simps)
  next
    case False
    with Cons.IH [of "i + 1" x i "ps @ [mk_period st i cur]"] show ?thesis
      by (simp add: ac_simps)
  qed
qed

lemma slots_to_periods_Cons: "slots_to_periods (s0 # rest) = runs_from rest 1 s0 0"
  using periods_loop_runs [where xs = rest and i = 1 and cur = s0 and st = 0 and ps = "[]"]
  by (simp add: slots_to_periods_def split: prod.splits)

lemma expand_runs:
  "0 \<le> st \<Longrightarrow> st < i \<Longrightarrow> i + int (length xs) \<le> 48 \<Longrightarrow>
   expand_periods (runs_from xs i cur st) = replicate (nat (i - st)) cur @ xs"
proof (induction xs arbitrary: i cur st)
  case Nil
  then show ?case by (simp add: expand_periods_def mk_period_def slot_of_format)
next
  case (Cons x xs)
  show ?case
  proof (cases "x = cur")
    case True
    have "nat (i + 1 - st) = Suc (nat (i - st))" using Cons.prems by simp
    with True Cons.IH [of st "i + 1" cur] Cons.prems show ?thesis
      by (simp add: replicate_append_same)
  next
    case False
    have "expand_periods (runs_from xs (i + 1) x i) = replicate (nat (i + 1 - i)) x @ xs"
      using Cons.prems by (intro Cons.IH) simp_all
    with False Cons.prems show ?thesis
      by (simp add: expand_periods_def mk_period_def slot_of_format)
  qed
qed

lemma runs_hd: "\<exists>p ps. runs_from xs i cur st = p # ps \<and> is_on p = cur"
  by (induction xs arbitrary: i st) (auto simp: mk_period_def)

lemma runs_alternating: "alternating (runs_from xs i cur st)"
proof (induction xs arbitrary: i cur st)
  case Nil
  show ?case by simp
next
  case (Cons x xs)
  show ?case
  proof (cases "x = cur")
    case True
    with Cons.IH show ?thesis by simp
  next
    case False
    obtain p ps where r: "runs_from xs (i + 1) x i = p # ps" "is_on p = x"
      using runs_hd by blast
    with False Cons.IH [of "i + 1" x i] show ?thesis by (simp add: mk_period_def)
  qed
qed

lemma runs_partition:
  "0 \<le> st \<Longrightarrow> st < i \<Longrightarrow> i + int (length xs) = 48 \<Longrightarrow> partition_from st (runs_from xs i cur st)"
proof (induction xs arbitrary: i cur st)
  case Nil
  then show ?case by (simp add: mk_period_def slot_of_format)
next
  case (Cons x xs)
  show ?case
  proof (cases "x = cur")
    case True
    with Cons.IH [of st "i + 1" cur] Cons.prems show ?thesis by simp
  next
    case False
    have "partition_from i (runs_from xs (i + 1) x i)"
      using Cons.prems by (intro Cons.IH) simp_all
    with False Cons.prems show ?thesis by (simp add: mk_period_def slot_of_format)
  qed
qed

section \<open>Claims about the Period Compressor\<close>

text \<open>
  Claim C1.  For every slot array of 48 booleans, expanding the periods computed by
  \<open>slots_to_periods\<close> back into booleans (one copy of \<open>is_on\<close> per slot between the two
  boundaries read off the rendered times) gives the array back.
\<close>

theorem C1_roundtrip: "length s = 48 \<Longrightarrow> expand_periods (slots_to_periods s) = s"
proof (cases s)
  case Nil
  then show ?thesis by (simp add: slots_to_periods_def expand_periods_def)
next
  case (Cons s0 rest)
  assume "length s = 48"
  with Cons have "1 + int (length rest) \<le> 48" by simp
  then have "expand_periods (runs_from rest 1 s0 0) = replicate (nat (1 - 0)) s0 @ rest"
    by (intro expand_runs) simp_all
  with Cons show ?thesis by (simp add: slots_to_periods_Cons)
qed

text \<open>The round trip at the example day.\<close>

theorem C1_roundtrip_witness:
  "length day_example = 48 \<and> expand_periods (slots_to_periods day_example) = day_example"
proof -
  have len: "length day_example = 48" by (simp add: day_example_def)
  from C1_roundtrip [OF len] len show ?thesis by simp
qed

text \<open>
  Claim C2.  For every slot array of 48 booleans, the periods computed by \<open>slots_to_periods\<close>
  partition the 48 slots: the first starts at slot 0, each ends where the next starts, the
  last ends at slot 48, none is empty, each has \<open>hours = (endSlot - startSlot) * 0.5\<close>, and
  neighbouring periods differ in \<open>is_on\<close>.
\<close>

theorem C2_partition:
  "length s = 48 \<Longrightarrow>
   partition_from 0 (slots_to_periods s) \<and> alternating (slots_to_periods s)"
proof (cases s)
  case Nil
  assume "length s = 48"
  with Nil show ?thesis by simp
next
  case (Cons s0 rest)
  assume "length s = 48"
  with Cons have "1 + int (length rest) = 48" by simp
  then have "partition_from 0 (runs_from rest 1 s0 0)"
    by (intro runs_partition) simp_all
  with Cons show ?thesis by (simp add: slots_to_periods_Cons runs_alternating)
qed

text \<open>The partition at the example day.\<close>

theorem C2_partition_witness:
  "length day_example = 48 \<and> partition_from 0 (slots_to_periods day_example)
   \<and> alternating (slots_to_periods day_example)"
proof -
  have len: "length day_example = 48" by (simp add: day_example_def)
  from C2_partition [OF len] len show ?thesis by simp
qed

section \<open>Claims about the Presenter\<close>

lemma py_int_of_int: "py_int (of_int n) = n"
  by (simp add: py_int_def)

lemma not_int_py_int: "h \<notin> \<int> \<Longrightarrow> h \<noteq> of_int (py_int h)"
  by (metis Ints_of_int)

lemma half_not_int: "(1 / 2 :: rat) \<notin> \<int>"
proof
  assume "(1 / 2 :: rat) \<in> \<int>"
  then obtain k :: int where "(1 / 2 :: rat) = of_int k" by (auto elim: Ints_cases)
  then have "(1 :: rat) = of_int (2 * k)" by simp
  then have "(1 :: int) = 2 * k" by (metis of_int_1 of_int_eq_iff)
  then show False by presburger
qed

text \<open>
  Claim C7, as the code has it.  For an integer hour count \<open>n\<close> (for a count that is not
  negative, \<open>n mod 10\<close> is its last digit): with last digit 1, except \<open>n mod 100 = 11\<close>, the
  singular form is used; with last digit 2, 3 or 4, except \<open>n mod 100\<close> in 12..14, the form
  \<open>hodyny\<close>; every other integer gets the generic form \<open>hodyn\<close>.  A value that is not an
  integer is rendered with \<open>hodyny\<close>, the same word as for 2, 3 and 4, whatever its
  fractional part.
\<close>

theorem C7_format_hours:
  "(n mod 10 = 1 \<and> n mod 100 \<noteq> 11 \<longrightarrow>
      format_hours fs (of_int n) = str_int n @ '' '' @ hodyna)
   \<and> (n mod 10 \<in> {2, 3, 4} \<and> n mod 100 \<notin> {12, 13, 14} \<longrightarrow>
      format_hours fs (of_int n) = str_int n @ '' '' @ hodyny)
   \<and> (\<not> (n mod 10 = 1 \<and> n mod 100 \<noteq> 11)
      \<and> \<not> (n mod 10 \<in> {2, 3, 4} \<and> n mod 100 \<notin> {12, 13, 14}) \<longrightarrow>
      format_hours fs (of_int n) = str_int n @ '' '' @ hodyn)
   \<and> (h \<notin> \<int> \<longrightarrow> format_hours fs h = fs h @ '' '' @ hodyny)"
proof -
  have int_case: "format_hours fs (of_int n) =
      (if n mod 10 = 1 \<and> n mod 100 \<noteq> 11 then str_int n @ '' '' @ hodyna
       else if n mod 10 \<in> {2, 3, 4} \<and> n mod 100 \<notin> {12, 13, 14}
         then str_int n @ '' '' @ hodyny
       else str_int n @ '' '' @ hodyn)"
    by (simp add: format_hours_def py_int_of_int)
  have frac_case: "h \<notin> \<int> \<longrightarrow> format_hours fs h = fs h @ '' '' @ hodyny"
    using not_int_py_int [of h] by (simp add: format_hours_def)
  from int_case frac_case show ?thesis by simp
qed

text \<open>The four cases at 21, 3, 12 and 0.5 hours.\<close>

theorem C7_format_hours_witness:
  "format_hours half_str (of_int 21) = ''21 '' @ hodyna
   \<and> format_hours half_str (of_int 3) = ''3 '' @ hodyny
   \<and> format_hours half_str (of_int 12) = ''12 '' @ hodyn
   \<and> format_hours half_str (1 / 2) = ''0.5 '' @ hodyny"
proof -
  have s21: "str_int 21 = ''21''" and s3: "str_int 3 = ''3''" and s12: "str_int 12 = ''12''"
    and s05: "half_str (1 / 2) = ''0.5''"
    by code_simp+
  from C7_format_hours [of 21 half_str "1 / 2"] C7_format_hours [of 3 half_str "1 / 2"]
    C7_format_hours [of 12 half_str "1 / 2"] half_not_int s21 s3 s12 s05
  show ?thesis by simp
qed

text \<open>
  Claim C7 as written says that a non-integer value gets the generic plural form; half an
  hour is rendered with \<open>hodyny\<close>, which is not the generic form \<open>hodyn\<close>.
\<close>

theorem C7_generic_plural_counterexample:
  "format_hours half_str (1 / 2) = ''0.5 '' @ hodyny
   \<and> format_hours half_str (1 / 2) \<noteq> ''0.5 '' @ hodyn"
  by code_simp

text \<open>
  Claim C10.  A record with status \<open>normal\<close> whose slots are empty or absent makes
  \<open>format_single_source_message\<close> return \<open>None\<close>: no display unit and no error.
\<close>

theorem C10_normal_without_slots:
  "d_status e = ''normal'' \<Longrightarrow> falsy (d_slots e) \<Longrightarrow>
   format_single_source_message (Some e) date source = None"
  by (simp add: format_single_source_message_def)

text \<open>Both violations of the invariant: an empty slot list and no slot list.\<close>

theorem C10_normal_without_slots_witness:
  "format_single_source_message
     (Some \<lparr>d_slots = Some [], d_date = (0 :: nat), d_status = ''normal''\<rparr>) 0 ''yasno'' = None
   \<and> format_single_source_message
     (Some \<lparr>d_slots = None, d_date = (0 :: nat), d_status = ''normal''\<rparr>) 0 ''yasno'' = None"
  using C10_normal_without_slots [of "\<lparr>d_slots = Some [], d_date = (0 :: nat), d_status = ''normal''\<rparr>" 0 "''yasno''"]
    C10_normal_without_slots [of "\<lparr>d_slots = None, d_date = (0 :: nat), d_status = ''normal''\<rparr>" 0 "''yasno''"]
  by (simp add: falsy_def)

section \<open>The GitHub-style normalizer: loops\<close>

lemma github_loop_concat:
  "github_loop d hs acc = acc @ concat (map (\<lambda>hour. hour_slots (dict_get d (str_int hour) ''yes'')) hs)"
  by (induction hs arbitrary: acc) simp_all

lemma parse_github_day_concat:
  "parse_github_day d = concat (map (\<lambda>hour. hour_slots (dict_get d (str_int hour) ''yes'')) [1..24])"
  by (simp add: parse_github_day_def github_loop_concat)

lemma hour_slots_length: "length (hour_slots st) = 2"
  by (simp add: hour_slots_def)

lemma length_concat_const: "(\<And>x. length (f x) = k) \<Longrightarrow> length (concat (map f xs)) = k * length xs"
  by (induction xs) simp_all

lemma parse_github_day_length: "length (parse_github_day d) = 48"
  by (simp add: parse_github_day_concat length_concat_const [where k = 2] hour_slots_length)

lemma all_yes_loop_iff:
  "all_yes_loop d hs = (\<forall>hour \<in> set hs. d (str_int hour) = None \<or> d (str_int hour) = Some ''yes'')"
  by (induction hs) (auto simp: dict_get_def split: option.splits)

lemma is_all_yes_iff:
  "is_all_yes d = (\<forall>hour \<in> set [1..24]. d (str_int hour) = None \<or> d (str_int hour) = Some ''yes'')"
  by (simp add: is_all_yes_def all_yes_loop_iff)

lemma dict_get_yes_iff: "(dict_get d k ''yes'' = ''yes'') = (d k = None \<or> d k = Some ''yes'')"
  by (simp add: dict_get_def split: option.splits)

lemma hour1_no_not_all_yes: "\<not> is_all_yes hour1_no"
  by code_simp

lemma hour24_yes_all_yes: "is_all_yes hour24_yes"
  by code_simp

lemma hour1_no_slots: "parse_github_day hour1_no = [False, False] @ replicate 46 True"
  by code_simp

lemma hour1_no_nonempty: "hour1_no \<noteq> Map.empty"
  by (simp add: hour1_no_def)

lemma hour24_yes_nonempty: "hour24_yes \<noteq> Map.empty"
  by (simp add: hour24_yes_def)

lemma rest_all_on: "concat (map (\<lambda>hour :: int. [True, True]) [2..24]) = replicate 46 True"
  by code_simp

lemma hours_split: "[1..24] = (1 :: int) # [2..24]"
  by (simp add: upto_rec1)

lemma str_int_1: "str_int 1 = ''1''"
  by code_simp

lemma one_off_periods:
  "slots_to_periods ([False, False] @ replicate 46 True) =
     [\<lparr>p_start = ''00:00'', p_end = ''01:00'', is_on = False, hours = 1\<rparr>,
      \<lparr>p_start = ''01:00'', p_end = ''24:00'', is_on = True, hours = 23\<rparr>]"
  by code_simp

section \<open>Claims about the GitHub-style normalizer\<close>

text \<open>
  Claim C5, as the code has it.  For a day payload that is not the empty dictionary: when
  each of the 24 hour keys is absent or maps to \<open>"yes"\<close>, the record has status \<open>pending\<close> and
  no slots; otherwise it has status \<open>normal\<close> and the 48 slots obtained by concatenating the
  two half-hour values of the hours 1 to 24.
\<close>

theorem C5_github_day:
  "dd \<noteq> Map.empty \<Longrightarrow>
   extract_github_day date (Some dd) =
     (if (\<forall>hour \<in> set [1..24]. dd (str_int hour) = None \<or> dd (str_int hour) = Some ''yes'')
      then Some \<lparr>d_slots = None, d_date = date, d_status = ''pending''\<rparr>
      else Some \<lparr>d_slots =
                   Some (concat (map (\<lambda>hour. hour_slots (dict_get dd (str_int hour) ''yes'')) [1..24])),
                 d_date = date, d_status = ''normal''\<rparr>)
   \<and> length (parse_github_day dd) = 48"
  by (simp add: extract_github_day_def is_all_yes_iff parse_github_day_concat [symmetric]
      parse_github_day_length)

text \<open>A payload with only hour 24 set to \<open>"yes"\<close> is pending; one with hour 1 off is normal.\<close>

theorem C5_github_day_witness:
  "extract_github_day (0 :: nat) (Some hour24_yes)
     = Some \<lparr>d_slots = None, d_date = 0, d_status = ''pending''\<rparr>
   \<and> extract_github_day (0 :: nat) (Some hour1_no)
     = Some \<lparr>d_slots = Some ([False, False] @ replicate 46 True), d_date = 0, d_status = ''normal''\<rparr>"
proof -
  have a: "\<forall>hour \<in> set [1..24]. hour24_yes (str_int hour) = None \<or> hour24_yes (str_int hour) = Some ''yes''"
    using hour24_yes_all_yes by (simp only: is_all_yes_iff simp_thms)
  have b: "\<not> (\<forall>hour \<in> set [1..24]. hour1_no (str_int hour) = None \<or> hour1_no (str_int hour) = Some ''yes'')"
    using hour1_no_not_all_yes by (simp only: is_all_yes_iff simp_thms)
  have c: "concat (map (\<lambda>hour. hour_slots (dict_get hour1_no (str_int hour) ''yes'')) [1..24])
           = [False, False] @ replicate 46 True"
    using hour1_no_slots by (simp only: parse_github_day_concat)
  have p: "extract_github_day (0 :: nat) (Some hour24_yes)
     = Some \<lparr>d_slots = None, d_date = 0, d_status = ''pending''\<rparr>"
    by (rule trans [OF conjunct1 [OF C5_github_day [OF hour24_yes_nonempty, of 0]] if_P [OF a]])
  have "extract_github_day (0 :: nat) (Some hour1_no)
     = Some \<lparr>d_slots =
                Some (concat (map (\<lambda>hour. hour_slots (dict_get hour1_no (str_int hour) ''yes'')) [1..24])),
              d_date = 0, d_status = ''normal''\<rparr>"
    by (rule trans [OF conjunct1 [OF C5_github_day [OF hour1_no_nonempty, of 0]] if_not_P [OF b]])
  then have q: "extract_github_day (0 :: nat) (Some hour1_no)
     = Some \<lparr>d_slots = Some ([False, False] @ replicate 46 True), d_date = 0, d_status = ''normal''\<rparr>"
    by (simp only: c)
  from p q show ?thesis by simp
qed

text \<open>
  Claim C5 as written covers the payload with no key at all: every hour key is absent, yet
  line 224 skips it and no record, pending or other, is produced.
\<close>

theorem C5_empty_payload_counterexample:
  "is_all_yes empty_payload \<and> extract_github_day (0 :: nat) (Some empty_payload) = None"
proof -
  have "is_all_yes empty_payload" by code_simp
  moreover have "extract_github_day (0 :: nat) (Some empty_payload) = None"
    by (simp add: extract_github_day_def empty_payload_def)
  ultimately show ?thesis by simp
qed

text \<open>
  Claim C9.  A day payload with hour \<open>"1"\<close> set to \<open>"no"\<close> and every other hour \<open>"yes"\<close> or
  absent is normalized to a \<open>normal\<close> record whose slots compress to exactly two periods:
  00:00--01:00 off with 1.0 hours, then 01:00--24:00 on with 23.0 hours.
\<close>

theorem C9_hour1_no:
  assumes h1: "day_data ''1'' = Some ''no''"
    and rest: "\<forall>hour \<in> set [2..24]. day_data (str_int hour) = None \<or> day_data (str_int hour) = Some ''yes''"
  shows "extract_github_day date (Some day_data)
           = Some \<lparr>d_slots = Some (parse_github_day day_data), d_date = date, d_status = ''normal''\<rparr>
         \<and> slots_to_periods (parse_github_day day_data) =
             [\<lparr>p_start = ''00:00'', p_end = ''01:00'', is_on = False, hours = 1\<rparr>,
              \<lparr>p_start = ''01:00'', p_end = ''24:00'', is_on = True, hours = 23\<rparr>]"
proof -
  have ne: "day_data \<noteq> Map.empty" using h1 by auto
  have "\<not> is_all_yes day_data"
    using h1 by (simp add: is_all_yes_def hours_split str_int_1 dict_get_def)
  with ne have ex: "extract_github_day date (Some day_data)
           = Some \<lparr>d_slots = Some (parse_github_day day_data), d_date = date, d_status = ''normal''\<rparr>"
    by (simp add: extract_github_day_def)
  have "map (\<lambda>hour. hour_slots (dict_get day_data (str_int hour) ''yes'')) [2..24]
        = map (\<lambda>hour. [True, True]) [2..24]"
  proof (rule map_cong [OF refl])
    fix hour :: int assume "hour \<in> set [2..24]"
    with rest have "dict_get day_data (str_int hour) ''yes'' = ''yes''"
      by (simp only: dict_get_yes_iff)
    then show "hour_slots (dict_get day_data (str_int hour) ''yes'') = [True, True]"
      by (simp add: hour_slots_def)
  qed
  then have tl: "concat (map (\<lambda>hour. hour_slots (dict_get day_data (str_int hour) ''yes'')) [2..24])
        = replicate 46 True"
    by (simp only: rest_all_on)
  have hd: "hour_slots (dict_get day_data (str_int 1) ''yes'') = [False, False]"
    using h1 by (simp add: str_int_1 dict_get_def hour_slots_def)
  have "parse_github_day day_data =
      hour_slots (dict_get day_data (str_int 1) ''yes'')
        @ concat (map (\<lambda>hour. hour_slots (dict_get day_data (str_int hour) ''yes'')) [2..24])"
    by (simp only: parse_github_day_concat hours_split list.map concat.simps)
  then have "parse_github_day day_data = [False, False] @ replicate 46 True"
    by (simp only: hd tl)
  with ex one_off_periods show ?thesis by (simp only: simp_thms)
qed

text \<open>The payload that holds nothing but hour 1.\<close>

theorem C9_hour1_no_witness:
  "extract_github_day (0 :: nat) (Some hour1_no)
     = Some \<lparr>d_slots = Some (parse_github_day hour1_no), d_date = 0, d_status = ''normal''\<rparr>
   \<and> slots_to_periods (parse_github_day hour1_no) =
       [\<lparr>p_start = ''00:00'', p_end = ''01:00'', is_on = False, hours = 1\<rparr>,
        \<lparr>p_start = ''01:00'', p_end = ''24:00'', is_on = True, hours = 23\<rparr>]"
proof -
  have h1: "hour1_no ''1'' = Some ''no''" by (simp add: hour1_no_def)
  have "all_yes_loop hour1_no [2..24]" by code_simp
  then have rest: "\<forall>hour \<in> set [2..24]. hour1_no (str_int hour) = None \<or> hour1_no (str_int hour) = Some ''yes''"
    by (simp only: all_yes_loop_iff)
  from C9_hour1_no [OF h1 rest] show ?thesis .
qed

section \<open>Claims about the Yasno-style normalizer\<close>

text \<open>
  With a start minute that is not negative, an interval is applied without error and the
  array keeps its 48 slots: the end index is cut at 48 by line 266.
\<close>

lemma set_range_in_bounds:
  "\<forall>i \<in> set idxs. 0 \<le> i \<and> i < int (length slots) \<Longrightarrow>
   \<exists>slots'. set_range slots idxs v = Inr slots' \<and> length slots' = length slots"
proof (induction idxs arbitrary: slots)
  case Nil
  show ?case by simp
next
  case (Cons i idxs)
  then have step: "py_setitem slots i v = Inr (slots[nat i := v])"
    by (simp add: py_setitem_def)
  from Cons.prems have "\<forall>k \<in> set idxs. 0 \<le> k \<and> k < int (length (slots[nat i := v]))"
    by simp
  from Cons.IH [OF this] step show ?case by simp
qed

lemma apply_interval_nonneg:
  assumes "length slots = 48" and "i_start slot = None \<or> (\<exists>m. i_start slot = Some m \<and> 0 \<le> m)"
  shows "\<exists>slots'. apply_interval slots slot = Inr slots' \<and> length slots' = 48"
proof -
  let ?a = "(case i_start slot of None \<Rightarrow> 0 | Some m \<Rightarrow> m) div 30"
  let ?b = "(case i_end slot of None \<Rightarrow> 0 | Some m \<Rightarrow> m) div 30"
  have "0 \<le> ?a" using assms(2) by (auto simp: pos_imp_zdiv_nonneg_iff)
  then have "\<forall>i \<in> set [?a..min ?b 48 - 1]. 0 \<le> i \<and> i < int (length slots)"
    using assms(1) by auto
  from set_range_in_bounds [OF this] assms(1) show ?thesis
    by (simp add: apply_interval_def Let_def)
qed

text \<open>An interval that ends after the day is cut at slot 48: only slots 46 and 47 change.\<close>

lemma late_end_clamped:
  "parse_yasno_day late_day = Inr (Some (replicate 46 True @ [False, False]), ''normal'')"
  by code_simp

text \<open>
  Claim C6 at two intervals with a negative start minute.  The start index is not clamped:
  with \<open>start = -1470\<close> the first write is \<open>slots[-49]\<close> and \<open>parse_yasno_day\<close> raises
  \<open>IndexError\<close>; with \<open>start = -30\<close>, \<open>end = 0\<close> the write \<open>slots[-1]\<close> switches off the last
  slot of the day, which the interval does not cover.
\<close>

theorem C6_negative_start:
  "parse_yasno_day neg_start_day = Inl IndexError
   \<and> parse_yasno_day wrap_day = Inr (Some (replicate 47 True @ [False]), ''normal'')"
  by code_simp

lemma str_replace_no_G:
  "CHR ''G'' \<notin> set s \<Longrightarrow> str_replace ''GPV'' [] s = s"
  by (induction s) auto

lemma not_alpha_no_G: "\<forall>c \<in> set s. \<not> is_alphabetic c \<Longrightarrow> CHR ''G'' \<notin> set s"
  by (auto simp: is_alphabetic_def)

lemma yasno_group_key_GPV:
  "\<forall>c \<in> set sfx. \<not> is_alphabetic c \<Longrightarrow> yasno_group_key (''GPV'' @ sfx) = sfx"
  using str_replace_no_G [OF not_alpha_no_G, of sfx] by (simp add: yasno_group_key_def)

lemma yasno_group_step_skip:
  "data (yasno_group_key g) = None \<Longrightarrow> yasno_group_step fromiso ymd data g result = Inr result"
  by (simp add: yasno_group_step_def)

lemma yasno_group_step_other:
  "yasno_group_step fromiso ymd data g' result = Inr r \<Longrightarrow> g' \<noteq> g \<Longrightarrow> r g = result g"
  by (auto simp: yasno_group_step_def Let_def split: option.splits sum.splits)

lemma yasno_groups_loop_skip:
  "yasno_groups_loop fromiso ymd data gs result = Inr r \<Longrightarrow> data (yasno_group_key g) = None
   \<Longrightarrow> r g = result g"
proof (induction gs arbitrary: result)
  case Nil
  then show ?case by simp
next
  case (Cons g' gs)
  from Cons.prems(1) obtain mid where
    step: "yasno_group_step fromiso ymd data g' result = Inr mid"
    and loop: "yasno_groups_loop fromiso ymd data gs mid = Inr r"
    by (auto split: sum.splits)
  have "mid g = result g"
  proof (cases "g' = g")
    case True
    with step Cons.prems(2) show ?thesis by (simp add: yasno_group_step_skip)
  next
    case False
    with step show ?thesis by (rule yasno_group_step_other)
  qed
  with Cons.IH [OF loop Cons.prems(2)] show ?case by simp
qed

lemma yasno_group_key_Nil: "yasno_group_key [] = []"
  by (simp add: yasno_group_key_def)

lemma yasno_group_key_match: "yasno_group_key (''GPV'' @ s) = yasno_group_key s"
  by (simp add: yasno_group_key_def)

lemma yasno_group_key_keep:
  "take 3 (c # s) \<noteq> ''GPV'' \<Longrightarrow> yasno_group_key (c # s) = c # yasno_group_key s"
  by (auto simp: yasno_group_key_def numeral_2_eq_2 numeral_3_eq_3)

lemma yasno_group_step_found:
  "data (yasno_group_key g) = Some group_data \<Longrightarrow>
   yasno_group_step fromiso ymd data g result =
     (case yasno_days_loop fromiso ymd group_data [''today'', ''tomorrow''] Map.empty of
        Inl e \<Rightarrow> Inl e
      | Inr dates \<Rightarrow> Inr (result(g \<mapsto> dates)))"
  by (simp add: yasno_group_step_def)

lemma yasno_groups_loop_other:
  "yasno_groups_loop fromiso ymd data gs result = Inr r \<Longrightarrow> g \<notin> set gs \<Longrightarrow> r g = result g"
proof (induction gs arbitrary: result)
  case Nil
  then show ?case by simp
next
  case (Cons g' gs)
  from Cons.prems(1) obtain mid where
    step: "yasno_group_step fromiso ymd data g' result = Inr mid"
    and loop: "yasno_groups_loop fromiso ymd data gs mid = Inr r"
    by (auto split: sum.splits)
  from Cons.prems(2) have "g' \<noteq> g" "g \<notin> set gs" by auto
  from yasno_group_step_other [OF step this(1)] Cons.IH [OF loop this(2)]
  show ?case by simp
qed

lemma yasno_groups_loop_found:
  "yasno_groups_loop fromiso ymd data gs result = Inr r \<Longrightarrow> g \<in> set gs
   \<Longrightarrow> data (yasno_group_key g) = Some group_data
   \<Longrightarrow> \<exists>dates. yasno_days_loop fromiso ymd group_data [''today'', ''tomorrow''] Map.empty = Inr dates
         \<and> r g = Some dates"
proof (induction gs arbitrary: result)
  case Nil
  then show ?case by simp
next
  case (Cons g' gs)
  from Cons.prems(1) obtain mid where
    step: "yasno_group_step fromiso ymd data g' result = Inr mid"
    and loop: "yasno_groups_loop fromiso ymd data gs mid = Inr r"
    by (auto split: sum.splits)
  show ?case
  proof (cases "g \<in> set gs")
    case True
    from Cons.IH [OF loop True Cons.prems(3)] show ?thesis .
  next
    case False
    with Cons.prems(2) have same: "g' = g" by simp
    from Cons.prems(3)
    have "yasno_group_step fromiso ymd data g result =
      (case yasno_days_loop fromiso ymd group_data [''today'', ''tomorrow''] Map.empty of
         Inl e \<Rightarrow> Inl e
       | Inr dates \<Rightarrow> Inr (result(g \<mapsto> dates)))"
      by (rule yasno_group_step_found [where data = data and g = g])
    with step same obtain dates where
      d: "yasno_days_loop fromiso ymd group_data [''today'', ''tomorrow''] Map.empty = Inr dates"
      and m: "mid = result(g \<mapsto> dates)"
      by (cases "yasno_days_loop fromiso ymd group_data [''today'', ''tomorrow''] Map.empty") simp_all
    from yasno_groups_loop_other [OF loop False] m have "r g = Some dates" by simp
    with d show ?thesis by blast
  qed
qed

lemma extract_yasno_found:
  assumes ex: "extract_yasno_schedules fromiso ymd data groups = Inr r"
    and mem: "g \<in> set groups"
    and key: "data (yasno_group_key g) = Some group_data"
  shows "\<exists>dates. yasno_days_loop fromiso ymd group_data [''today'', ''tomorrow''] Map.empty = Inr dates
         \<and> r g = Some dates"
proof -
  from key have "data \<noteq> Map.empty" by (metis option.distinct(1))
  with ex have "yasno_groups_loop fromiso ymd data groups Map.empty = Inr r"
    by (simp add: extract_yasno_schedules_def)
  from yasno_groups_loop_found [OF this mem key] show ?thesis .
qed

lemma extract_yasno_skip:
  assumes ex: "extract_yasno_schedules fromiso ymd data groups = Inr r"
    and key: "data (yasno_group_key g) = None"
  shows "r g = None"
proof (cases "data = Map.empty")
  case True
  with ex show ?thesis by (auto simp: extract_yasno_schedules_def)
next
  case False
  with ex have "yasno_groups_loop fromiso ymd data groups Map.empty = Inr r"
    by (simp add: extract_yasno_schedules_def)
  from yasno_groups_loop_skip [OF this key] show ?thesis by simp
qed

lemma pending_day_step:
  "yasno_day_step iso_example ymd_example pending_group ''today'' Map.empty = Inr pending_dates"
  by (simp add: yasno_day_step_def pending_group_def pending_day_def parse_yasno_day_def
      falsy_def iso_example_def ymd_example_def pending_dates_def)

lemma pending_day_step_tomorrow:
  "yasno_day_step iso_example ymd_example pending_group ''tomorrow'' pending_dates = Inr pending_dates"
  by (simp add: yasno_day_step_def pending_group_def)

lemma pending_days_loop:
  "yasno_days_loop iso_example ymd_example pending_group [''today'', ''tomorrow''] Map.empty
     = Inr pending_dates"
  by (simp only: yasno_days_loop.simps pending_day_step pending_day_step_tomorrow sum.case)

lemma gpv_payload_hit: "gpv_payload (yasno_group_key ''GPV12.1'') = Some pending_group"
proof -
  have "yasno_group_key ''GPV12.1'' = ''12.1''" by code_simp
  then show ?thesis by (simp add: gpv_payload_def)
qed

lemma gpv_payload_step:
  "yasno_group_step iso_example ymd_example gpv_payload ''GPV12.1'' Map.empty = Inr pending_schedules"
  using yasno_group_step_found [where data = gpv_payload and g = "''GPV12.1''", OF gpv_payload_hit,
      of iso_example ymd_example Map.empty]
  by (simp only: pending_days_loop sum.case pending_schedules_def)

lemma extract_gpv_payload:
  "extract_yasno_schedules iso_example ymd_example gpv_payload [''GPV12.1''] = Inr pending_schedules"
proof -
  have "gpv_payload ''12.1'' \<noteq> None" by (simp add: gpv_payload_def)
  then have ne: "gpv_payload \<noteq> Map.empty" by metis
  have "yasno_groups_loop iso_example ymd_example gpv_payload [''GPV12.1''] Map.empty
          = Inr pending_schedules"
    by (simp only: yasno_groups_loop.simps gpv_payload_step sum.case)
  with ne show ?thesis by (simp only: extract_yasno_schedules_def if_False)
qed

text \<open>
  Claim C8, as the code has it.  The lookup key of a group is the identifier with every
  occurrence of the text \<open>GPV\<close> removed, scanning from the left: an occurrence at the front
  is dropped and the scan goes on behind it, any other character is kept; for \<open>GPV\<close>
  followed by a suffix without letters the key is that suffix.  A group whose key the
  payload does not contain is skipped: the step returns the result unchanged, without
  error, and the result of \<open>extract_yasno_schedules\<close> has no entry for it.  A group whose key
  the payload contains gets, under its full identifier, the dates built from the data
  stored under that key.
\<close>

theorem C8_yasno_group_lookup:
  "yasno_group_key [] = []
   \<and> yasno_group_key (''GPV'' @ s) = yasno_group_key s
   \<and> (take 3 (c # s) \<noteq> ''GPV'' \<longrightarrow> yasno_group_key (c # s) = c # yasno_group_key s)
   \<and> ((\<forall>c \<in> set sfx. \<not> is_alphabetic c) \<longrightarrow> yasno_group_key (''GPV'' @ sfx) = sfx)
   \<and> (data (yasno_group_key g) = None \<longrightarrow>
        yasno_group_step fromiso ymd data g result = Inr result
        \<and> (\<forall>r. extract_yasno_schedules fromiso ymd data groups = Inr r \<longrightarrow> r g = None))
   \<and> (data (yasno_group_key g) = Some group_data \<longrightarrow>
        yasno_group_step fromiso ymd data g result =
          (case yasno_days_loop fromiso ymd group_data [''today'', ''tomorrow''] Map.empty of
             Inl e \<Rightarrow> Inl e
           | Inr dates \<Rightarrow> Inr (result(g \<mapsto> dates)))
        \<and> (\<forall>r. g \<in> set groups \<and> extract_yasno_schedules fromiso ymd data groups = Inr r \<longrightarrow>
              (\<exists>dates. yasno_days_loop fromiso ymd group_data [''today'', ''tomorrow''] Map.empty
                         = Inr dates
                       \<and> r g = Some dates)))"
proof (intro conjI impI allI)
  show "yasno_group_key [] = []" by (rule yasno_group_key_Nil)
next
  show "yasno_group_key (''GPV'' @ s) = yasno_group_key s" by (rule yasno_group_key_match)
next
  assume "take 3 (c # s) \<noteq> ''GPV''"
  then show "yasno_group_key (c # s) = c # yasno_group_key s" by (rule yasno_group_key_keep)
next
  assume "\<forall>c \<in> set sfx. \<not> is_alphabetic c"
  then show "yasno_group_key (''GPV'' @ sfx) = sfx" by (rule yasno_group_key_GPV)
next
  assume "data (yasno_group_key g) = None"
  then show "yasno_group_step fromiso ymd data g result = Inr result"
    by (rule yasno_group_step_skip)
next
  fix r
  assume "data (yasno_group_key g) = None"
    and "extract_yasno_schedules fromiso ymd data groups = Inr r"
  then show "r g = None" by (intro extract_yasno_skip)
next
  assume "data (yasno_group_key g) = Some group_data"
  then show "yasno_group_step fromiso ymd data g result =
          (case yasno_days_loop fromiso ymd group_data [''today'', ''tomorrow''] Map.empty of
             Inl e \<Rightarrow> Inl e
           | Inr dates \<Rightarrow> Inr (result(g \<mapsto> dates)))"
    by (rule yasno_group_step_found)
next
  fix r
  assume key: "data (yasno_group_key g) = Some group_data"
    and rest: "g \<in> set groups \<and> extract_yasno_schedules fromiso ymd data groups = Inr r"
  from rest have mem: "g \<in> set groups"
    and ex: "extract_yasno_schedules fromiso ymd data groups = Inr r" by simp_all
  from extract_yasno_found [OF ex mem key]
  show "\<exists>dates. yasno_days_loop fromiso ymd group_data [''today'', ''tomorrow''] Map.empty = Inr dates
         \<and> r g = Some dates" .
qed

text \<open>
  Group \<open>GPV12.1\<close> against a payload that only has the key \<open>"1"\<close> (skipped) and against one
  that has the key \<open>"12.1"\<close> (found); an identifier with two occurrences of \<open>GPV\<close>.
\<close>

theorem C8_yasno_group_lookup_witness:
  "yasno_group_key ''GPV12.1'' = ''12.1''
   \<and> yasno_group_key ''GPV1GPV2'' = ''12''
   \<and> yasno_group_step iso_example ymd_example suffix_payload ''GPV12.1'' no_schedules = Inr no_schedules
   \<and> extract_yasno_schedules iso_example ymd_example suffix_payload [''GPV12.1''] = Inr no_schedules
   \<and> yasno_group_step iso_example ymd_example gpv_payload ''GPV12.1'' no_schedules
       = Inr (no_schedules(''GPV12.1'' \<mapsto> pending_dates))
   \<and> extract_yasno_schedules iso_example ymd_example gpv_payload [''GPV12.1''] = Inr pending_schedules
   \<and> pending_schedules ''GPV12.1'' = Some pending_dates"
proof -
  note skip = C8_yasno_group_lookup [where sfx = "''12.1''" and data = suffix_payload and g = "''GPV12.1''"
      and fromiso = iso_example and ymd = ymd_example and result = no_schedules
      and groups = "[''GPV12.1'']"]
  note found = C8_yasno_group_lookup [where data = gpv_payload and g = "''GPV12.1''" and fromiso = iso_example
      and ymd = ymd_example and result = no_schedules and groups = "[''GPV12.1'']"
      and group_data = pending_group]
  note first = C8_yasno_group_lookup [where s = "''1GPV2''" and c = "CHR ''1''"]
  note inner = C8_yasno_group_lookup [where s = "''GPV2''" and c = "CHR ''1''"]
  note second = C8_yasno_group_lookup [where s = "''2''" and c = "CHR ''2''"]
  note last = C8_yasno_group_lookup [where s = "[]" and c = "CHR ''2''"]
  have na: "\<forall>c \<in> set ''12.1''. \<not> is_alphabetic c" by code_simp
  have "yasno_group_key (''GPV'' @ ''12.1'') = ''12.1''"
    by (rule skip [THEN conjunct2, THEN conjunct2, THEN conjunct2, THEN conjunct1, THEN mp, OF na])
  then have key: "yasno_group_key ''GPV12.1'' = ''12.1''" by simp
  have e0: "yasno_group_key [] = []" by (rule last [THEN conjunct1])
  have m1: "yasno_group_key (''GPV'' @ ''1GPV2'') = yasno_group_key ''1GPV2''"
    by (rule first [THEN conjunct2, THEN conjunct1])
  have m2: "yasno_group_key (''GPV'' @ ''2'') = yasno_group_key ''2''"
    by (rule second [THEN conjunct2, THEN conjunct1])
  have n1: "take 3 (CHR ''1'' # ''GPV2'') \<noteq> ''GPV''" by simp
  have n2: "take 3 (CHR ''2'' # []) \<noteq> ''GPV''" by simp
  have k1: "yasno_group_key (CHR ''1'' # ''GPV2'') = CHR ''1'' # yasno_group_key ''GPV2''"
    by (rule inner [THEN conjunct2, THEN conjunct2, THEN conjunct1, THEN mp, OF n1])
  have k2: "yasno_group_key (CHR ''2'' # []) = CHR ''2'' # yasno_group_key []"
    by (rule last [THEN conjunct2, THEN conjunct2, THEN conjunct1, THEN mp, OF n2])
  have twice: "yasno_group_key ''GPV1GPV2'' = ''12''"
  proof -
    have "yasno_group_key ''GPV1GPV2'' = yasno_group_key ''1GPV2''" using m1 by simp
    also have "\<dots> = CHR ''1'' # yasno_group_key ''GPV2''" using k1 by simp
    also have "yasno_group_key ''GPV2'' = yasno_group_key ''2''" using m2 by simp
    also have "yasno_group_key ''2'' = CHR ''2'' # yasno_group_key []" using k2 by simp
    finally show ?thesis by (simp add: e0)
  qed
  have miss: "suffix_payload (yasno_group_key ''GPV12.1'') = None"
    by (simp add: key suffix_payload_def)
  note skip' = skip [THEN conjunct2, THEN conjunct2, THEN conjunct2, THEN conjunct2, THEN conjunct1,
      THEN mp, OF miss]
  note found' = found [THEN conjunct2, THEN conjunct2, THEN conjunct2, THEN conjunct2, THEN conjunct2,
      THEN mp, OF gpv_payload_hit]
  have s1: "yasno_group_step iso_example ymd_example suffix_payload ''GPV12.1'' no_schedules
      = Inr no_schedules"
    by (rule skip' [THEN conjunct1])
  have ev_skip: "extract_yasno_schedules iso_example ymd_example suffix_payload [''GPV12.1'']
      = Inr no_schedules"
    by (simp add: extract_yasno_schedules_def suffix_payload_def yasno_group_step_def
        key no_schedules_def)
  have f1: "yasno_group_step iso_example ymd_example gpv_payload ''GPV12.1'' no_schedules
       = Inr (no_schedules(''GPV12.1'' \<mapsto> pending_dates))"
    using found' [THEN conjunct1] by (simp only: pending_days_loop sum.case)
  have mem: "''GPV12.1'' \<in> set [''GPV12.1'']" by simp
  have "\<exists>dates. yasno_days_loop iso_example ymd_example pending_group [''today'', ''tomorrow''] Map.empty
                   = Inr dates \<and> pending_schedules ''GPV12.1'' = Some dates"
    by (rule found' [THEN conjunct2, THEN spec, THEN mp, OF conjI [OF mem extract_gpv_payload]])
  then have f2: "pending_schedules ''GPV12.1'' = Some pending_dates"
    by (simp only: pending_days_loop sum.inject) blast
  from key twice s1 ev_skip f1 extract_gpv_payload f2 show ?thesis by (simp only: simp_thms)
qed

text \<open>
  Claim C8 as written removes any alphabetic prefix.  For the identifier \<open>G1\<close> the bare
  suffix is \<open>1\<close>, which the payload contains, but the key looked up is \<open>G1\<close> and the group
  is skipped.
\<close>

theorem C8_prefix_counterexample:
  "bare_suffix ''G1'' = ''1''
   \<and> suffix_payload (bare_suffix ''G1'') = Some pending_group
   \<and> yasno_group_key ''G1'' = ''G1''
   \<and> extract_yasno_schedules iso_example ymd_example suffix_payload [''G1''] = Inr no_schedules"
proof -
  have b: "bare_suffix ''G1'' = ''1''" by code_simp
  then have p: "suffix_payload (bare_suffix ''G1'') = Some pending_group"
    by (simp add: suffix_payload_def)
  have k: "yasno_group_key ''G1'' = ''G1''" by code_simp
  have e: "extract_yasno_schedules iso_example ymd_example suffix_payload [''G1''] = Inr no_schedules"
    by (simp add: extract_yasno_schedules_def suffix_payload_def yasno_group_step_def
        k no_schedules_def)
  from b p k e show ?thesis by (simp only: simp_thms)
qed

section \<open>Claims about the Reconciler\<close>

lemma identical_normal_iff:
  "identical_normal g y =
     (\<exists>ge ye s. g = Some ge \<and> y = Some ye \<and> d_status ge = ''normal'' \<and> d_status ye = ''normal''
        \<and> d_slots ge = Some s \<and> d_slots ye = Some s \<and> s \<noteq> [])"
  by (auto simp: identical_normal_def list.rel_eq split: option.splits)

lemma single_sources:
  "format_single_source_message d date src = Some u \<Longrightarrow> u_sources u = [src]"
  by (auto simp: format_single_source_message_def format_schedule_message_def
      split: option.splits if_splits)

lemma single_ok:
  "day_schedule_ok e \<Longrightarrow> \<exists>u. format_single_source_message (Some e) date src = Some u"
  by (auto simp: format_single_source_message_def day_schedule_ok_def falsy_def
      split: option.splits)

lemma single_ok_sources:
  assumes "day_schedule_ok e"
  shows "map u_sources (case format_single_source_message (Some e) date src of
                           None \<Rightarrow> [] | Some u \<Rightarrow> [u]) = [[src]]"
proof -
  from single_ok [OF assms, of date src] obtain u where
    u: "format_single_source_message (Some e) date src = Some u" by blast
  with single_sources [OF u] show ?thesis by simp
qed

lemma combined_case:
  "identical_normal g y \<Longrightarrow>
   \<exists>u. group_day_messages gn yn g y = [u] \<and> u_sources u = [gn, yn] \<and> u_special u = None"
  by (auto simp: identical_normal_iff group_day_messages_def schedules_match_def falsy_def
      format_schedule_message_def)

lemma separate_case:
  assumes "\<not> identical_normal g y"
  shows "\<exists>date. group_day_messages gn yn g y =
     (case g of None \<Rightarrow> [] | Some e \<Rightarrow>
        (case format_single_source_message g date gn of None \<Rightarrow> [] | Some u \<Rightarrow> [u]))
     @ (case y of None \<Rightarrow> [] | Some e \<Rightarrow>
        (case format_single_source_message y date yn of None \<Rightarrow> [] | Some u \<Rightarrow> [u]))"
proof (cases g)
  case None
  then show ?thesis by (cases y) (auto simp: group_day_messages_def Let_def)
next
  case (Some ge)
  with assms have "\<not> (d_status ge = ''normal'' \<and> (case y of Some ye \<Rightarrow> Some (d_status ye) | None \<Rightarrow> None) = Some ''normal''
      \<and> \<not> falsy (d_slots ge) \<and> \<not> falsy (case y of Some ye \<Rightarrow> d_slots ye | None \<Rightarrow> None)
      \<and> schedules_match (d_slots ge) (case y of Some ye \<Rightarrow> d_slots ye | None \<Rightarrow> None))"
    by (auto simp: identical_normal_iff schedules_match_def falsy_def split: option.splits)
  with Some show ?thesis
    by (auto simp: group_day_messages_def Let_def)
qed

text \<open>
  Claim C3.  For one group and one date, the reconciler emits a single display unit that
  names both providers exactly when both records are \<open>normal\<close> with non-empty, element-wise
  identical slot arrays.  In every other case, for records that satisfy the DaySchedule
  invariant, it emits one unit per provider that has a record, naming that provider alone,
  GitHub first; a provider without a record contributes nothing.
\<close>

theorem C3_reconciler:
  "((\<exists>u. group_day_messages gn yn g y = [u] \<and> u_sources u = [gn, yn]) = identical_normal g y)
   \<and> (\<not> identical_normal g y \<and> entry_ok g \<and> entry_ok y \<longrightarrow>
        map u_sources (group_day_messages gn yn g y) =
          (case g of None \<Rightarrow> [] | Some e \<Rightarrow> [[gn]]) @ (case y of None \<Rightarrow> [] | Some e \<Rightarrow> [[yn]]))"
proof (cases "identical_normal g y")
  case True
  with combined_case [OF True, of gn yn] show ?thesis by auto
next
  case False
  from separate_case [OF False, of gn yn] obtain date where
    eq: "group_day_messages gn yn g y =
     (case g of None \<Rightarrow> [] | Some e \<Rightarrow>
        (case format_single_source_message g date gn of None \<Rightarrow> [] | Some u \<Rightarrow> [u]))
     @ (case y of None \<Rightarrow> [] | Some e \<Rightarrow>
        (case format_single_source_message y date yn of None \<Rightarrow> [] | Some u \<Rightarrow> [u]))"
    by blast
  have no_pair: "\<not> (\<exists>u. group_day_messages gn yn g y = [u] \<and> u_sources u = [gn, yn])"
  proof
    assume "\<exists>u. group_day_messages gn yn g y = [u] \<and> u_sources u = [gn, yn]"
    then obtain u where u: "group_day_messages gn yn g y = [u]" "u_sources u = [gn, yn]" by blast
    from u(1) eq have "format_single_source_message g date gn = Some u
        \<or> format_single_source_message y date yn = Some u"
      by (auto split: option.splits simp: append_eq_Cons_conv)
    with u(2) show False by (auto dest: single_sources)
  qed
  have "map u_sources (group_day_messages gn yn g y) =
          (case g of None \<Rightarrow> [] | Some e \<Rightarrow> [[gn]]) @ (case y of None \<Rightarrow> [] | Some e \<Rightarrow> [[yn]])"
    if ok: "entry_ok g" "entry_ok y"
  proof -
    have a: "(case g of None \<Rightarrow> [] | Some e \<Rightarrow>
        map u_sources (case format_single_source_message g date gn of None \<Rightarrow> [] | Some u \<Rightarrow> [u]))
        = (case g of None \<Rightarrow> [] | Some e \<Rightarrow> [[gn]])"
      using ok(1) by (cases g) (simp_all add: entry_ok_def single_ok_sources)
    have b: "(case y of None \<Rightarrow> [] | Some e \<Rightarrow>
        map u_sources (case format_single_source_message y date yn of None \<Rightarrow> [] | Some u \<Rightarrow> [u]))
        = (case y of None \<Rightarrow> [] | Some e \<Rightarrow> [[yn]])"
      using ok(2) by (cases y) (simp_all add: entry_ok_def single_ok_sources)
    from a b show ?thesis
      by (simp add: eq option.case_distrib [of "map u_sources"] cong: option.case_cong)
  qed
  with False no_pair show ?thesis by blast
qed

text \<open>Matching records, a normal record beside an emergency, and a lone emergency.\<close>

theorem C3_reconciler_witness:
  "map u_sources (group_day_messages ''outage-data-ua'' ''yasno'' (Some github_normal) (Some yasno_normal))
       = [[''outage-data-ua'', ''yasno'']]
   \<and> map u_sources (group_day_messages ''outage-data-ua'' ''yasno'' (Some github_normal) (Some yasno_emergency))
       = [[''outage-data-ua''], [''yasno'']]
   \<and> map u_sources (group_day_messages ''outage-data-ua'' ''yasno'' None (Some yasno_emergency))
       = [[''yasno'']]"
proof -
  have m: "identical_normal (Some github_normal) (Some yasno_normal)"
    by (simp add: identical_normal_def github_normal_def yasno_normal_def day_example_def list.rel_eq)
  have n1: "\<not> identical_normal (Some github_normal) (Some yasno_emergency)"
    by (simp add: identical_normal_def github_normal_def yasno_emergency_def)
  have n2: "\<not> identical_normal None (Some yasno_emergency)"
    by (simp add: identical_normal_def)
  have ok1: "entry_ok (Some github_normal)"
    by (simp add: entry_ok_def day_schedule_ok_def github_normal_def falsy_def day_example_def)
  have ok2: "entry_ok (Some yasno_emergency)"
    by (simp add: entry_ok_def day_schedule_ok_def yasno_emergency_def falsy_def)
  have ok3: "entry_ok (None :: nat day_entry option)"
    by (simp add: entry_ok_def)
  from C3_reconciler [of "''outage-data-ua''" "''yasno''" "Some github_normal" "Some yasno_normal"] m
  have "\<exists>u. group_day_messages ''outage-data-ua'' ''yasno'' (Some github_normal) (Some yasno_normal) = [u]
        \<and> u_sources u = [''outage-data-ua'', ''yasno'']"
    by blast
  then have a: "map u_sources (group_day_messages ''outage-data-ua'' ''yasno'' (Some github_normal) (Some yasno_normal))
       = [[''outage-data-ua'', ''yasno'']]"
    by auto
  from C3_reconciler [of "''outage-data-ua''" "''yasno''" "Some github_normal" "Some yasno_emergency"] n1 ok1 ok2
  have b: "map u_sources (group_day_messages ''outage-data-ua'' ''yasno'' (Some github_normal) (Some yasno_emergency))
       = [[''outage-data-ua''], [''yasno'']]"
    by simp
  from C3_reconciler [of "''outage-data-ua''" "''yasno''" None "Some yasno_emergency"] n2 ok3 ok2
  have c: "map u_sources (group_day_messages ''outage-data-ua'' ''yasno'' None (Some yasno_emergency))
       = [[''yasno'']]"
    by simp
  from a b c show ?thesis by (simp only: simp_thms)
qed

section \<open>Claims about the Change Detector\<close>

lemma slots_equal_iff: "slots_equal a b = (a = b)"
  by (auto simp: slots_equal_def list_eq_iff_nth_eq split: option.splits)

lemma entry_equal_iff: "entry_equal a b = (a = b)"
  by (auto simp: entry_equal_def slots_equal_iff)

lemma deep_equal_iff: "deep_equal a b = (a = b)"
proof -
  have e: "entry_equal = (=)" by (intro ext) (rule entry_equal_iff)
  have d: "(\<lambda>da db. \<forall>date_str :: string. rel_option entry_equal (da date_str) (db date_str)) = (=)"
    by (intro ext) (simp add: e option.rel_eq fun_eq_iff)
  have g: "(\<lambda>ga gb. \<forall>grp :: string. rel_option
           (\<lambda>da db. \<forall>date_str :: string. rel_option entry_equal (da date_str) (db date_str))
           (ga grp) (gb grp)) = (=)"
    by (intro ext) (simp add: d option.rel_eq fun_eq_iff)
  show ?thesis
    unfolding deep_equal_def g by (simp add: option.rel_eq fun_eq_iff)
qed

lemma upd_changes: "m k = Some v \<Longrightarrow> v' \<noteq> v \<Longrightarrow> m(k \<mapsto> v') \<noteq> m"
  by (metis fun_upd_same option.inject)

lemma upd_adds: "m k = None \<Longrightarrow> m(k \<mapsto> v) \<noteq> m"
  by (metis fun_upd_same option.distinct(1))

lemma upd_removes: "m k \<noteq> None \<Longrightarrow> m(k := None) \<noteq> m"
  by (metis fun_upd_same)

lemma entry_slots_changes:
  "c_slots e = Some s \<Longrightarrow> s' \<noteq> s \<Longrightarrow> e\<lparr>c_slots := Some s'\<rparr> \<noteq> e"
proof -
  assume "c_slots e = Some s" "s' \<noteq> s"
  then have "c_slots (e\<lparr>c_slots := Some s'\<rparr>) \<noteq> c_slots e" by simp
  then show ?thesis by (rule contrapos_nn) simp
qed

lemma entry_status_changes: "st \<noteq> c_status e \<Longrightarrow> e\<lparr>c_status := st\<rparr> \<noteq> e"
proof -
  assume "st \<noteq> c_status e"
  then have "c_status (e\<lparr>c_status := st\<rparr>) \<noteq> c_status e" by simp
  then show ?thesis by (rule contrapos_nn) simp
qed

lemma nested_changes:
  "c p = Some gm \<Longrightarrow> gm g = Some dm \<Longrightarrow> dm' \<noteq> dm \<Longrightarrow>
   schedules_changed (c(p \<mapsto> gm(g \<mapsto> dm'))) c"
proof -
  assume c: "c p = Some gm" and gm: "gm g = Some dm" and ne: "dm' \<noteq> dm"
  have "gm(g \<mapsto> dm') \<noteq> gm"
    using gm ne by (rule upd_changes [where m = gm and k = g])
  with c have "c(p \<mapsto> gm(g \<mapsto> dm')) \<noteq> c"
    by (rule upd_changes [where m = c and k = p])
  then show ?thesis by (simp add: schedules_changed_def)
qed

lemma flip_changes: "i < length s \<Longrightarrow> s[i := \<not> s ! i] \<noteq> s"
  by (metis nth_list_update_eq)

lemma reduce_groups_None: "(reduce_groups s g = None) = (s g = None)"
  by (simp add: reduce_groups_def split: option.splits)

lemma reduce_groups_empty:
  assumes "reduce_groups s = Map.empty"
  shows "s = Map.empty"
proof (rule ext)
  fix g
  from assms have "reduce_groups s g = None" by (rule fun_cong [where x = g, THEN trans]) simp
  then show "s g = None" by (simp only: reduce_groups_None)
qed

lemma first_run:
  assumes ne: "github \<noteq> Map.empty \<or> yasno \<noteq> Map.empty"
  shows "schedules_changed (schedules_to_cache_format github yasno) (load_cached_schedules None)"
proof -
  have "schedules_to_cache_format github yasno \<noteq> load_cached_schedules None"
  proof
    assume eq: "schedules_to_cache_format github yasno = load_cached_schedules None"
    from fun_cong [OF eq, of "''github''"] have g: "reduce_groups github = Map.empty"
      by (simp add: schedules_to_cache_format_def load_cached_schedules_def)
    from fun_cong [OF eq, of "''yasno''"] have y: "reduce_groups yasno = Map.empty"
      by (simp add: schedules_to_cache_format_def load_cached_schedules_def)
    from reduce_groups_empty [OF g] reduce_groups_empty [OF y] ne show False by blast
  qed
  then show ?thesis unfolding schedules_changed_def .
qed

text \<open>
  Claim C4.  \<open>schedules_changed\<close> is false exactly when the two caches are deeply equal; a
  cache compared with itself is unchanged; flipping one slot, altering a status, removing
  or adding a date, and removing or adding a group each count as a change; and with no
  cache file, any new snapshot in which a provider has a group counts as a change.
\<close>

theorem C4_schedules_changed:
  "((\<not> schedules_changed new_cache old_cache) = deep_equal new_cache old_cache)
   \<and> \<not> schedules_changed c c
   \<and> (c p = Some gm \<and> gm g = Some dm \<and> dm d = Some e \<longrightarrow>
        (c_slots e = Some s \<and> i < length s \<longrightarrow>
           schedules_changed
             (c(p \<mapsto> gm(g \<mapsto> dm(d \<mapsto> e\<lparr>c_slots := Some (s[i := \<not> s ! i])\<rparr>)))) c)
        \<and> (st \<noteq> c_status e \<longrightarrow>
           schedules_changed (c(p \<mapsto> gm(g \<mapsto> dm(d \<mapsto> e\<lparr>c_status := st\<rparr>)))) c)
        \<and> schedules_changed (c(p \<mapsto> gm(g \<mapsto> dm(d := None)))) c
        \<and> schedules_changed (c(p \<mapsto> gm(g := None))) c)
   \<and> (c p = Some gm \<and> gm g = Some dm \<and> dm d = None \<longrightarrow>
        schedules_changed (c(p \<mapsto> gm(g \<mapsto> dm(d \<mapsto> e')))) c)
   \<and> (c p = Some gm \<and> gm g = None \<longrightarrow> schedules_changed (c(p \<mapsto> gm(g \<mapsto> dm'))) c)
   \<and> (github \<noteq> Map.empty \<or> yasno \<noteq> Map.empty \<longrightarrow>
        schedules_changed (schedules_to_cache_format github yasno) (load_cached_schedules None))"
proof (intro conjI impI)
  show "(\<not> schedules_changed new_cache old_cache) = deep_equal new_cache old_cache"
    by (simp add: schedules_changed_def deep_equal_iff)
next
  show "\<not> schedules_changed c c"
    by (simp add: schedules_changed_def)
next
  assume path: "c p = Some gm \<and> gm g = Some dm \<and> dm d = Some e"
    and sl: "c_slots e = Some s \<and> i < length s"
  from sl have "e\<lparr>c_slots := Some (s[i := \<not> s ! i])\<rparr> \<noteq> e"
    by (intro entry_slots_changes [where s = s] flip_changes) simp_all
  with path have "dm(d \<mapsto> e\<lparr>c_slots := Some (s[i := \<not> s ! i])\<rparr>) \<noteq> dm"
    by (intro upd_changes [where m = dm and k = d and v = e]) simp_all
  with path show "schedules_changed
      (c(p \<mapsto> gm(g \<mapsto> dm(d \<mapsto> e\<lparr>c_slots := Some (s[i := \<not> s ! i])\<rparr>)))) c"
    by (intro nested_changes [where dm = dm]) simp_all
next
  assume path: "c p = Some gm \<and> gm g = Some dm \<and> dm d = Some e"
    and ne: "st \<noteq> c_status e"
  from ne have "e\<lparr>c_status := st\<rparr> \<noteq> e" by (rule entry_status_changes)
  with path have "dm(d \<mapsto> e\<lparr>c_status := st\<rparr>) \<noteq> dm"
    by (intro upd_changes [where m = dm and k = d and v = e]) simp_all
  with path show "schedules_changed (c(p \<mapsto> gm(g \<mapsto> dm(d \<mapsto> e\<lparr>c_status := st\<rparr>)))) c"
    by (intro nested_changes [where dm = dm]) simp_all
next
  assume path: "c p = Some gm \<and> gm g = Some dm \<and> dm d = Some e"
  then have "dm(d := None) \<noteq> dm"
    by (intro upd_removes) simp
  with path show "schedules_changed (c(p \<mapsto> gm(g \<mapsto> dm(d := None)))) c"
    by (intro nested_changes [where dm = dm]) simp_all
next
  assume path: "c p = Some gm \<and> gm g = Some dm \<and> dm d = Some e"
  then have "gm(g := None) \<noteq> gm"
    by (intro upd_removes) simp
  with path have "c(p \<mapsto> gm(g := None)) \<noteq> c"
    by (intro upd_changes [where m = c and k = p and v = gm]) simp_all
  then show "schedules_changed (c(p \<mapsto> gm(g := None))) c"
    by (simp add: schedules_changed_def)
next
  assume path: "c p = Some gm \<and> gm g = Some dm \<and> dm d = None"
  then have "dm(d \<mapsto> e') \<noteq> dm"
    by (intro upd_adds) simp
  with path show "schedules_changed (c(p \<mapsto> gm(g \<mapsto> dm(d \<mapsto> e')))) c"
    by (intro nested_changes [where dm = dm]) simp_all
next
  assume path: "c p = Some gm \<and> gm g = None"
  then have "gm(g \<mapsto> dm') \<noteq> gm"
    by (intro upd_adds) simp
  with path have "c(p \<mapsto> gm(g \<mapsto> dm')) \<noteq> c"
    by (intro upd_changes [where m = c and k = p and v = gm]) simp_all
  then show "schedules_changed (c(p \<mapsto> gm(g \<mapsto> dm'))) c"
    by (simp add: schedules_changed_def)
next
  assume "github \<noteq> Map.empty \<or> yasno \<noteq> Map.empty"
  then show "schedules_changed (schedules_to_cache_format github yasno) (load_cached_schedules None)"
    by (rule first_run)
qed

text \<open>Each kind of change at the example cache, and the first run.\<close>

theorem C4_schedules_changed_witness:
  "\<not> schedules_changed cache_example cache_example
   \<and> schedules_changed
        (cache_example(''github'' \<mapsto> groups_example(''GPV12.1'' \<mapsto> dates_example(''2025-01-15'' \<mapsto>
           entry_example\<lparr>c_slots := Some (day_example[0 := \<not> day_example ! 0])\<rparr>))))
        cache_example
   \<and> schedules_changed
        (cache_example(''github'' \<mapsto> groups_example(''GPV12.1'' \<mapsto> dates_example(''2025-01-15'' \<mapsto>
           entry_example\<lparr>c_status := ''pending''\<rparr>))))
        cache_example
   \<and> schedules_changed
        (cache_example(''github'' \<mapsto> groups_example(''GPV12.1'' \<mapsto> dates_example(''2025-01-15'' := None))))
        cache_example
   \<and> schedules_changed (cache_example(''github'' \<mapsto> groups_example(''GPV12.1'' := None))) cache_example
   \<and> schedules_changed
        (cache_example(''github'' \<mapsto> groups_example(''GPV12.1'' \<mapsto> dates_example(''2025-01-16'' \<mapsto>
           entry_example))))
        cache_example
   \<and> schedules_changed (cache_example(''github'' \<mapsto> groups_example(''GPV18.1'' \<mapsto> dates_example)))
        cache_example
   \<and> schedules_changed (schedules_to_cache_format github_example yasno_example)
        (load_cached_schedules None)"
proof -
  have c: "cache_example ''github'' = Some groups_example" by (simp add: cache_example_def)
  have g: "groups_example ''GPV12.1'' = Some dates_example" by (simp add: groups_example_def)
  have d: "dates_example ''2025-01-15'' = Some entry_example" by (simp add: dates_example_def)
  have s: "c_slots entry_example = Some day_example" by (simp add: entry_example_def)
  have i: "0 < length day_example" by (simp add: day_example_def)
  have st: "''pending'' \<noteq> c_status entry_example" by (simp add: entry_example_def)
  have d': "dates_example ''2025-01-16'' = None" by (simp add: dates_example_def)
  have g': "groups_example ''GPV18.1'' = None" by (simp add: groups_example_def)
  have ne: "github_example \<noteq> Map.empty \<or> yasno_example \<noteq> Map.empty"
  proof -
    have "github_example ''GPV12.1'' \<noteq> None" by (simp add: github_example_def)
    then have "github_example \<noteq> Map.empty" by (metis)
    then show ?thesis by simp
  qed
  note t1 = C4_schedules_changed [where c = cache_example and p = "''github''" and gm = groups_example
      and g = "''GPV12.1''" and dm = dates_example and d = "''2025-01-15''" and e = entry_example
      and s = day_example and i = 0 and st = "''pending''"
      and github = github_example and yasno = yasno_example]
  note t2 = C4_schedules_changed [where c = cache_example and p = "''github''" and gm = groups_example
      and g = "''GPV12.1''" and dm = dates_example and d = "''2025-01-16''" and e' = entry_example]
  note t3 = C4_schedules_changed [where c = cache_example and p = "''github''" and gm = groups_example
      and g = "''GPV18.1''" and dm' = dates_example]
  from t1 c g d s i st ne
  have a: "\<not> schedules_changed cache_example cache_example
   \<and> schedules_changed
        (cache_example(''github'' \<mapsto> groups_example(''GPV12.1'' \<mapsto> dates_example(''2025-01-15'' \<mapsto>
           entry_example\<lparr>c_slots := Some (day_example[0 := \<not> day_example ! 0])\<rparr>))))
        cache_example
   \<and> schedules_changed
        (cache_example(''github'' \<mapsto> groups_example(''GPV12.1'' \<mapsto> dates_example(''2025-01-15'' \<mapsto>
           entry_example\<lparr>c_status := ''pending''\<rparr>))))
        cache_example
   \<and> schedules_changed
        (cache_example(''github'' \<mapsto> groups_example(''GPV12.1'' \<mapsto> dates_example(''2025-01-15'' := None))))
        cache_example
   \<and> schedules_changed (cache_example(''github'' \<mapsto> groups_example(''GPV12.1'' := None))) cache_example
   \<and> schedules_changed (schedules_to_cache_format github_example yasno_example)
        (load_cached_schedules None)"
    by blast
  from t2 c g d'
  have b: "schedules_changed
        (cache_example(''github'' \<mapsto> groups_example(''GPV12.1'' \<mapsto> dates_example(''2025-01-16'' \<mapsto>
           entry_example))))
        cache_example"
    by blast
  from t3 c g'
  have e: "schedules_changed (cache_example(''github'' \<mapsto> groups_example(''GPV18.1'' \<mapsto> dates_example)))
        cache_example"
    by blast
  from a b e show ?thesis by blast
qed

section \<open>The records of both normalizers satisfy the DaySchedule invariant\<close>

text \<open>
  Every record that \<open>extract_github_day\<close> stores, and every pair that \<open>parse_yasno_day\<close>
  returns, has one of the three statuses and is \<open>normal\<close> exactly when it carries a non-empty
  slot array.  So the invariant assumed in claim C3 holds for all records the program builds.
\<close>

lemma py_setitem_length: "py_setitem xs i v = Inr ys \<Longrightarrow> length ys = length xs"
  by (auto simp: py_setitem_def split: if_splits)

lemma set_range_length: "set_range slots idxs v = Inr slots' \<Longrightarrow> length slots' = length slots"
proof (induction idxs arbitrary: slots)
  case Nil
  then show ?case by simp
next
  case (Cons i idxs)
  from Cons.prems obtain mid where
    m: "py_setitem slots i v = Inr mid" and r: "set_range mid idxs v = Inr slots'"
    by (auto split: sum.splits)
  from Cons.IH [OF r] py_setitem_length [OF m] show ?case by simp
qed

lemma apply_interval_length:
  "apply_interval slots slot = Inr slots' \<Longrightarrow> length slots' = length slots"
  by (auto simp: apply_interval_def Let_def dest: set_range_length)

lemma apply_intervals_length:
  "apply_intervals slots ivs = Inr slots' \<Longrightarrow> length slots' = length slots"
proof (induction ivs arbitrary: slots)
  case Nil
  then show ?case by simp
next
  case (Cons iv ivs)
  from Cons.prems obtain mid where
    m: "apply_interval slots iv = Inr mid" and r: "apply_intervals mid ivs = Inr slots'"
    by (auto split: sum.splits)
  from Cons.IH [OF r] apply_interval_length [OF m] show ?case by simp
qed

lemma yasno_record_ok:
  assumes res: "parse_yasno_day day_data = Inr (sl, st)"
  shows "day_schedule_ok \<lparr>d_slots = sl, d_date = date, d_status = st\<rparr>"
proof (cases "(case y_status day_data of None \<Rightarrow> [] | Some s \<Rightarrow> s) = ''EmergencyShutdowns''")
  case True
  with res have "sl = None \<and> st = ''emergency''"
    by (simp add: parse_yasno_day_def)
  then show ?thesis by (simp add: day_schedule_ok_def falsy_def)
next
  case no_emergency: False
  show ?thesis
  proof (cases "falsy (y_slots day_data)")
    case True
    with res no_emergency have "sl = None \<and> st = ''pending''"
      by (simp add: parse_yasno_day_def)
    then show ?thesis by (simp add: day_schedule_ok_def falsy_def)
  next
    case False
    then obtain ivs where ivs: "y_slots day_data = Some ivs"
      by (cases "y_slots day_data") (simp_all add: falsy_def)
    from res no_emergency False ivs obtain slots where
      ap: "apply_intervals (replicate 48 True) ivs = Inr slots"
      and out: "sl = Some slots" "st = ''normal''"
      by (cases "apply_intervals (replicate 48 True) ivs") (simp_all add: parse_yasno_day_def)
    from apply_intervals_length [OF ap] have "slots \<noteq> []" by auto
    with out show ?thesis by (simp add: day_schedule_ok_def falsy_def)
  qed
qed

lemma github_record_ok:
  assumes "extract_github_day date day_data = Some e"
  shows "day_schedule_ok e"
proof -
  have "parse_github_day dd \<noteq> []" for dd
    using parse_github_day_length [of dd] by auto
  with assms show ?thesis
    by (auto simp: extract_github_day_def day_schedule_ok_def falsy_def
        split: option.splits if_splits)
qed

end
